theory Spec2Isabelle
  imports Complex_Main "HOL-Library.Log_Nat"
begin

section \<open>Python values\<close>

text \<open>
  The program (\<^verbatim>\<open>Lyric_Looper.py\<close>, class \<^verbatim>\<open>TextVideoPlayer\<close>) computes every
  duration and opacity in Python floats. Numbers are rationals (\<^typ>\<open>rat\<close>), in two
  ways.

  A continuous quantity (a duration in seconds, an opacity, a time read from the clock)
  is the exact value of the expression the code writes down; the float the code holds
  is that value rounded, so the two agree within rounding.

  Where the code turns a float into an integer (\<^verbatim>\<open>int(...)\<close> at lines 566,
  1021--1024, 1036, 1059, 1131, 1140, 1155 and 1162) the rounding can change the result,
  and the model computes the float expression as the machine does: every operation
  rounds its exact result to the nearest binary64 number, ties to even (\<open>fl\<close> below).
  It starts from the floats the code holds: for a duration \<open>d = factor * 60 / bpm\<close>
  that is \<open>fl d\<close>, since the product \<open>factor * 60.0\<close> is exact for every factor of
  the table and the division rounds once; the same holds for the length of a bar and
  for an opacity \<open>i / n\<close>.

  Python's integers are unbounded: \<^typ>\<open>int\<close>.
\<close>

datatype py_error = ZeroDivisionError | IndexError

subsection \<open>Binary64 rounding\<close>

text \<open>
  \<open>expo x\<close> is the binary exponent of a positive \<open>x\<close>, the \<open>e\<close> with
  \<open>2^e \<le> x < 2^(e+1)\<close>. \<open>round_even\<close> rounds to the nearest integer, a tie to
  the even one. \<open>fl x\<close> rounds \<open>x\<close> to 53 significant bits. The exponent range of
  binary64 is not modelled: the numbers of this program lie far inside it.
\<close>

definition expo :: "rat \<Rightarrow> int" where
  "expo x = (if 1 \<le> x then bitlen \<lfloor>x\<rfloor> - 1 else - bitlen (\<lceil>1 / x\<rceil> - 1))"

definition round_even :: "rat \<Rightarrow> int" where
  "round_even y =
     (let n = \<lfloor>y\<rfloor>; r = y - of_int n
      in if r < 1 / 2 then n else if r > 1 / 2 then n + 1 else if even n then n else n + 1)"

definition fl :: "rat \<Rightarrow> rat" where
  "fl x =
     (if x = 0 then 0
      else (let u = 2 powi (expo \<bar>x\<bar> - 52) in of_int (round_even (x / u)) * u))"

text \<open>
  An integer \<open>n\<close> is the integer part of \<open>x\<close> within \<open>err\<close> when it is the
  integer part of some value no further than \<open>err\<close> from \<open>x\<close>.
\<close>

definition int_part_within :: "rat \<Rightarrow> rat \<Rightarrow> int \<Rightarrow> bool" where
  "int_part_within err x n \<longleftrightarrow> of_int n \<le> x + err \<and> x - err < of_int n + 1"

text \<open>\<^verbatim>\<open>int(x)\<close> of a float truncates toward zero.\<close>

definition py_int :: "rat \<Rightarrow> int" where
  "py_int x = (if 0 \<le> x then \<lfloor>x\<rfloor> else \<lceil>x\<rceil>)"

text \<open>\<^verbatim>\<open>d.get(k, default)\<close> on a dictionary written as its list of items.\<close>

definition dict_get :: "('k \<times> 'v) list \<Rightarrow> 'k \<Rightarrow> 'v \<Rightarrow> 'v" where
  "dict_get d k dflt = (case map_of d k of Some v \<Rightarrow> v | None \<Rightarrow> dflt)"

text \<open>\<^verbatim>\<open>range(n)\<close>: empty when \<open>n \<le> 0\<close>.\<close>

definition py_range :: "int \<Rightarrow> int list" where
  "py_range n = map int [0..<nat n]"

text \<open>
  \<^verbatim>\<open>xs[i]\<close>: a negative index counts from the end, an index out of range raises.
  \<^verbatim>\<open>xs[i:]\<close>: a slice never raises; a negative start counts from the end and is
  clamped at the front.
\<close>

definition py_index :: "'a list \<Rightarrow> int \<Rightarrow> py_error + 'a" where
  "py_index xs i =
     (if - int (length xs) \<le> i \<and> i < 0 then Inr (xs ! nat (i + int (length xs)))
      else if 0 \<le> i \<and> i < int (length xs) then Inr (xs ! nat i)
      else Inl IndexError)"

definition py_slice_from :: "'a list \<Rightarrow> int \<Rightarrow> 'a list" where
  "py_slice_from xs i =
     (if i < 0 then drop (nat (int (length xs) + i)) xs else drop (nat i) xs)"

section \<open>Configuration\<close>

text \<open>
  The attributes of \<^verbatim>\<open>TextVideoPlayer\<close> the timing engine and the exporter read
  (\<^verbatim>\<open>__init__\<close>, lines 66--110, and \<^verbatim>\<open>count_in\<close>, line 402). A Tk variable
  is the value its \<^verbatim>\<open>get()\<close> returns. The two colours are the RGB triples that
  \<^verbatim>\<open>hex_to_rgb\<close> reads from \<^verbatim>\<open>font_color\<close> and \<^verbatim>\<open>bg_color\<close>.
\<close>

record settings =
  words :: "string list"
  bpm :: int
  word_note_value :: string
  fade_in_note :: string
  fade_out_note :: string
  gap_note :: string
  gap_negative :: bool
  time_signature_num :: int
  loop_enabled :: bool
  loop_mode :: string
  loop_bars :: int
  loop_times :: int
  loop_infinite :: bool
  start_word :: int
  font_color :: "int list"
  bg_color :: "int list"
  export_fps :: int
  export_transparent :: bool

text \<open>The values \<^verbatim>\<open>__init__\<close> gives them, with a word list to play.\<close>

definition init_settings :: "string list \<Rightarrow> settings" where
  "init_settings ws =
     \<lparr> words = ws, bpm = 120, word_note_value = ''1/4'', fade_in_note = ''1/16'',
       fade_out_note = ''1/16'', gap_note = ''0'', gap_negative = False,
       time_signature_num = 4, loop_enabled = False, loop_mode = ''all_words'',
       loop_bars = 4, loop_times = 2, loop_infinite = False, start_word = 1,
       font_color = [255, 255, 255], bg_color = [0, 0, 0],
       export_fps = 30, export_transparent = False \<rparr>"

section \<open>Musical time\<close>

text \<open>\<^verbatim>\<open>self.note_values\<close> (lines 76--79): quarter-note multiples.\<close>

definition note_values :: "(string \<times> rat) list" where
  "note_values =
     [(''1/32'', 1 / 8), (''1/16'', 1 / 4), (''1/8'', 1 / 2), (''1/4'', 1),
      (''1/2'', 2), (''1'', 4), (''2'', 8), (''4'', 16), (''8'', 32), (''16'', 64)]"

text \<open>
  \<^verbatim>\<open>note_to_seconds\<close> (lines 442--445). The token of a zero duration is
  \<^verbatim>\<open>"0"\<close>; it returns before the division, so it does not raise at \<open>bpm = 0\<close>.
\<close>

definition note_to_seconds :: "settings \<Rightarrow> string \<Rightarrow> py_error + rat" where
  "note_to_seconds s note_str =
     (if note_str = ''0'' then Inr 0
      else if bpm s = 0 then Inl ZeroDivisionError
      else Inr (dict_get note_values note_str 1 * 60 / of_int (bpm s)))"

text \<open>\<^verbatim>\<open>get_bar_seconds\<close> (lines 447--448).\<close>

definition get_bar_seconds :: "settings \<Rightarrow> py_error + rat" where
  "get_bar_seconds s =
     (if bpm s = 0 then Inl ZeroDivisionError
      else Inr (of_int (time_signature_num s) * 60 / of_int (bpm s)))"

text \<open>
  The four durations both schedulers derive first (lines 659--664 and 1014--1019; the
  duration display derives two of them the same way, lines 487--490).
\<close>

record timing =
  word_dur :: rat
  fade_in :: rat
  fade_out :: rat
  gap :: rat

definition get_timing :: "settings \<Rightarrow> py_error + timing" where
  "get_timing s =
     (case note_to_seconds s (word_note_value s) of Inl e \<Rightarrow> Inl e | Inr wd \<Rightarrow>
     (case note_to_seconds s (fade_in_note s) of Inl e \<Rightarrow> Inl e | Inr fi \<Rightarrow>
     (case note_to_seconds s (fade_out_note s) of Inl e \<Rightarrow> Inl e | Inr fo \<Rightarrow>
     (case note_to_seconds s (gap_note s) of Inl e \<Rightarrow> Inl e | Inr g \<Rightarrow>
        Inr \<lparr> word_dur = wd, fade_in = fi, fade_out = fo,
              gap = (if gap_negative s then - g else g) \<rparr>))))"

section \<open>Colour blending and the two compositors\<close>

text \<open>
  \<^verbatim>\<open>blend_color\<close> (lines 563--567), on the triples \<^verbatim>\<open>hex_to_rgb\<close> returns:
  line 566. The hexadecimal codec around it (lines 564, 565, 567) is not modelled.
  \<open>opacity\<close> is the float passed; \<^verbatim>\<open>f * opacity + b * (1 - opacity)\<close> is four
  float operations.
\<close>

definition blend_color :: "int list \<Rightarrow> int list \<Rightarrow> rat \<Rightarrow> int list" where
  "blend_color fg_rgb bg_rgb opacity =
     map (\<lambda>(f, b). py_int (fl (fl (of_int f * opacity) + fl (of_int b * fl (1 - opacity)))))
       (zip fg_rgb bg_rgb)"

text \<open>
  What a compositor draws: the background fill (none for a transparent image) and the
  texts, bottom first, each with its fill colour. Rasterising the text is the toolkit's.
\<close>

record layer =
  text_of :: string
  fill :: "int list"

record picture =
  background :: "int list option"
  layers :: "layer list"

text \<open>
  \<^verbatim>\<open>display_word\<close> (lines 581--594), the live preview. \<^verbatim>\<open>if prev_word\<close>
  holds for a string that is present and not empty.
\<close>

definition truthy :: "string option \<Rightarrow> bool" where
  "truthy w = (case w of None \<Rightarrow> False | Some t \<Rightarrow> t \<noteq> [])"

definition display_word :: "settings \<Rightarrow> string \<Rightarrow> rat \<Rightarrow> string option \<Rightarrow> rat \<Rightarrow> picture" where
  "display_word s word opacity prev_word prev_opacity =
     \<lparr> background = Some (bg_color s),
       layers =
         (if truthy prev_word \<and> prev_opacity > 0
          then [\<lparr> text_of = the prev_word,
                   fill = blend_color (font_color s) (bg_color s) prev_opacity \<rparr>]
          else []) @
         (if word \<noteq> [] \<and> opacity > 0
          then [\<lparr> text_of = word,
                   fill = blend_color (font_color s) (bg_color s) opacity \<rparr>]
          else []) \<rparr>"

text \<open>
  \<^verbatim>\<open>_render_frame\<close> (lines 1122--1168), the exporter's compositor. With
  \<^verbatim>\<open>use_alpha\<close> the fill is the foreground's channels followed by
  \<^verbatim>\<open>alpha = int(255 * op)\<close>, on a transparent image (lines 1131--1132,
  1140--1141); without it the fill is the comprehension of lines 1155 and 1162 on an
  image filled with the background.
\<close>

definition render_fill :: "bool \<Rightarrow> int list \<Rightarrow> int list \<Rightarrow> rat \<Rightarrow> int list" where
  "render_fill use_alpha fg bg op =
     (if use_alpha then fg @ [py_int (fl (255 * op))]
      else map (\<lambda>(f, b). py_int (fl (fl (of_int f * op) + fl (of_int b * fl (1 - op)))))
             (zip fg bg))"

definition render_frame ::
  "string \<Rightarrow> rat \<Rightarrow> string option \<Rightarrow> rat \<Rightarrow> int list \<Rightarrow> int list \<Rightarrow> bool \<Rightarrow> picture" where
  "render_frame word op prev_word prev_op bg fg use_alpha =
     \<lparr> background = (if use_alpha then None else Some bg),
       layers =
         (if truthy prev_word \<and> prev_op > 0
          then [\<lparr> text_of = the prev_word, fill = render_fill use_alpha fg bg prev_op \<rparr>]
          else []) @
         (if word \<noteq> [] \<and> op > 0
          then [\<lparr> text_of = word, fill = render_fill use_alpha fg bg op \<rparr>]
          else []) \<rparr>"

section \<open>The duration display\<close>

text \<open>
  \<^verbatim>\<open>update_duration_display\<close> (lines 479--508). \<open>single_pass\<close> is the value of
  line 492, for a word list that is not empty; the label is what the function then
  shows, as the number it formats.
\<close>

definition single_pass :: "settings \<Rightarrow> py_error + rat" where
  "single_pass s =
     (let start_idx = start_word s - 1;
          word_count = int (length (words s)) - start_idx
      in (case note_to_seconds s (word_note_value s) of Inl e \<Rightarrow> Inl e | Inr wd \<Rightarrow>
         (case note_to_seconds s (gap_note s) of Inl e \<Rightarrow> Inl e | Inr g0 \<Rightarrow>
           (let g = (if gap_negative s then - g0 else g0)
            in Inr (max 0 (of_int word_count * wd + of_int (word_count - 1) * g))))))"

datatype duration_label =
  No_words | Loop_forever rat | Loop_times rat int | One_pass rat

definition update_duration_display :: "settings \<Rightarrow> py_error + duration_label" where
  "update_duration_display s =
     (if words s = [] then Inr No_words
      else (case single_pass s of Inl e \<Rightarrow> Inl e | Inr sp \<Rightarrow>
        if loop_enabled s then
          (case (if loop_mode s = ''bars''
                 then map_sum id (\<lambda>bs. of_int (loop_bars s) * bs) (get_bar_seconds s)
                 else Inr sp) of
             Inl e \<Rightarrow> Inl e
           | Inr loop_dur \<Rightarrow>
               if loop_infinite s then Inr (Loop_forever loop_dur)
               else Inr (Loop_times (loop_dur * of_int (loop_times s)) (loop_times s)))
        else Inr (One_pass sp)))"

section \<open>The live scheduler\<close>

text \<open>
  \<^verbatim>\<open>_playback_loop\<close> (lines 654--803) runs on a wall clock and polls two flags
  another thread sets. The model is one pass of its outer loop (lines 685--791), after
  the count-in, while nobody stops or pauses (\<^verbatim>\<open>is_playing\<close> stays true,
  \<^verbatim>\<open>is_paused\<close> false), on an ideal clock: a \<^verbatim>\<open>time.sleep(d)\<close> takes
  \<open>d\<close>, a loop that polls until \<^verbatim>\<open>end_time\<close> ends at \<^verbatim>\<open>end_time\<close>, and
  nothing else takes time. A real clock can only be later. A segment records the phase
  of a word, the calls the phase posts to the user interface in order, and the time the
  phase asks the clock for.
\<close>

datatype phase = FadeIn | Hold | FadeOut | Gap

datatype call =
  Display_word string rat "string option" rat
  | Clear_display
  | Update_progress

record segment =
  phase_of :: phase
  calls :: "call list"
  duration :: rat

definition fade_steps :: int where
  "fade_steps = 20"

text \<open>
  Lines 711--736: \<open>fade_steps + 1\<close> steps, each posting one \<^verbatim>\<open>display_word\<close> and
  sleeping \<open>step_t\<close>. Without a fade-in the word is shown at once (line 736); that
  call is put at the head of the hold.
\<close>

definition live_fade_in :: "timing \<Rightarrow> string \<Rightarrow> string option \<Rightarrow> segment list" where
  "live_fade_in t word prev_word =
     (if fade_in t > 0 then
        (let step_t = fade_in t / of_int fade_steps
         in [\<lparr> phase_of = FadeIn,
                calls = map (\<lambda>i. let op = of_int i / of_int fade_steps
                                in if gap t < 0 \<and> truthy prev_word
                                   then Display_word word op prev_word (1 - op)
                                   else Display_word word op None 0)
                          (py_range (fade_steps + 1)),
                duration = of_int (fade_steps + 1) * step_t \<rparr>])
      else [])"

text \<open>Lines 738--754: the hold, at least a hundredth of a second.\<close>

definition live_main :: "timing \<Rightarrow> string \<Rightarrow> segment" where
  "live_main t word =
     \<lparr> phase_of = Hold,
       calls = (if fade_in t > 0 then [] else [Display_word word 1 None 0])
               @ [Update_progress],
       duration = max (1 / 100) (word_dur t - fade_in t - fade_out t) \<rparr>"

text \<open>Lines 756--773.\<close>

definition live_fade_out :: "timing \<Rightarrow> string \<Rightarrow> segment list" where
  "live_fade_out t word =
     (if fade_out t > 0 \<and> gap t \<ge> 0 then
        (let step_t = fade_out t / of_int fade_steps
         in [\<lparr> phase_of = FadeOut,
                calls = map (\<lambda>i. Display_word word (1 - of_int i / of_int fade_steps) None 0)
                          (py_range (fade_steps + 1)),
                duration = of_int (fade_steps + 1) * step_t \<rparr>])
      else [])"

text \<open>Lines 775--789.\<close>

definition live_gap :: "timing \<Rightarrow> segment list" where
  "live_gap t =
     (if gap t > 0
      then [\<lparr> phase_of = Gap, calls = [Clear_display], duration = gap t \<rparr>]
      else [])"

definition live_word :: "timing \<Rightarrow> string \<Rightarrow> string option \<Rightarrow> segment list" where
  "live_word t word prev_word =
     live_fade_in t word prev_word @ [live_main t word] @ live_fade_out t word @ live_gap t"

definition total_duration :: "segment list \<Rightarrow> rat" where
  "total_duration segs = sum_list (map duration segs)"

text \<open>
  The word loop, lines 695--791, from \<^verbatim>\<open>current_word_index = idx\<close> with
  \<open>elapsed\<close> seconds gone since \<^verbatim>\<open>loop_start\<close>. The bar check of lines 703--706
  stands before the word; nothing after it looks at the bar length again. The result
  lists the segments of each word played.

  The metronome check stands inside the loops of a word (lines 719--727, 745--753,
  762--770, 780--788); its ticks are modelled on their own below and are not among the
  calls of a segment. The first check of a pass finds the elapsed time at or past
  \<^verbatim>\<open>next_beat = 0.0\<close> and takes \<^verbatim>\<open>metro_beat % ts\<close>, which raises for a time
  signature \<open>ts\<close> of 0: in the fade-in of the first word or, without one, in its hold.
\<close>

function live_loop ::
  "timing \<Rightarrow> int \<Rightarrow> bool \<Rightarrow> rat \<Rightarrow> string list \<Rightarrow> int \<Rightarrow> int \<Rightarrow> rat
     \<Rightarrow> py_error + segment list list" where
  "live_loop t ts bars bar_duration ws start_idx idx elapsed =
     (if idx < int (length ws) then
        if bars \<and> elapsed \<ge> bar_duration then Inr []
        else
          (case py_index ws idx of Inl e \<Rightarrow> Inl e | Inr word \<Rightarrow>
          (case (if idx > start_idx then map_sum id Some (py_index ws (idx - 1)) else Inr None) of
            Inl e \<Rightarrow> Inl e
          | Inr prev_word \<Rightarrow>
              if ts = 0 then Inl ZeroDivisionError
              else
                (case live_loop t ts bars bar_duration ws start_idx (idx + 1)
                        (elapsed + total_duration (live_word t word prev_word)) of
                   Inl e \<Rightarrow> Inl e
                 | Inr rest \<Rightarrow> Inr (live_word t word prev_word # rest))))
      else Inr [])"
  by pat_completeness auto
termination
  by (relation "measure (\<lambda>(t, ts, bars, bar_duration, ws, start_idx, idx, elapsed).
        nat (int (length ws) - idx))") auto

declare live_loop.simps [simp del]

text \<open>
  One pass: lines 655--666 (the division of line 656 comes first) and 685--791.
\<close>

definition live_pass :: "settings \<Rightarrow> py_error + segment list list" where
  "live_pass s =
     (if bpm s = 0 then Inl ZeroDivisionError
      else (case get_timing s of Inl e \<Rightarrow> Inl e | Inr t \<Rightarrow>
           (case get_bar_seconds s of Inl e \<Rightarrow> Inl e | Inr bs \<Rightarrow>
             live_loop t (time_signature_num s) (loop_enabled s \<and> loop_mode s = ''bars'')
               (of_int (loop_bars s) * bs) (words s) (start_word s - 1) (start_word s - 1) 0)))"

section \<open>The metronome\<close>


record tick =
  beat :: int
  bar :: int
  elapsed_at :: rat






section \<open>The frame exporter\<close>

text \<open>
  \<^verbatim>\<open>_export_thread\<close> (lines 983--1120). A frame is the arguments of the
  \<^verbatim>\<open>_render_frame\<close> call that draws it (size, font, colours and transparency are
  the same for every frame), with the phase of the loop that wrote it.
\<close>

record frame =
  f_phase :: phase
  f_word :: string
  f_op :: rat
  f_prev_word :: "string option"
  f_prev_op :: rat

text \<open>
  Lines 1021--1025. The code holds each duration as a float, \<open>fl\<close> of the duration
  of the timing, and multiplies it by the frame rate in floats.
\<close>

record frame_counts =
  fade_in_f :: int
  fade_out_f :: int
  word_f :: int
  gap_f :: int
  main_f :: int

definition get_frame_counts :: "timing \<Rightarrow> int \<Rightarrow> frame_counts" where
  "get_frame_counts t fps =
     (let fi = py_int (fl (fl (fade_in t) * of_int fps));
          fo = py_int (fl (fl (fade_out t) * of_int fps));
          wf = py_int (fl (fl (word_dur t) * of_int fps))
      in \<lparr> fade_in_f = fi, fade_out_f = fo, word_f = wf,
            gap_f = (if gap t > 0 then py_int (fl (\<bar>fl (gap t)\<bar> * of_int fps)) else 0),
            main_f = max 1 (wf - fi - fo) \<rparr>)"

text \<open>
  Lines 1034--1041: the number of loop iterations. Line 1059: the frame budget of an
  iteration, \<^verbatim>\<open>float('inf')\<close> (no budget) unless looping by bars; then it is
  \<^verbatim>\<open>int(loop_bars * get_bar_seconds() * fps)\<close>, two float products of the float
  length of a bar.
\<close>

definition export_loops :: "settings \<Rightarrow> int" where
  "export_loops s =
     (if loop_enabled s then (if loop_infinite s then 1 else loop_times s) else 1)"

definition get_bar_limit :: "settings \<Rightarrow> py_error + int option" where
  "get_bar_limit s =
     (if loop_enabled s \<and> loop_mode s = ''bars'' then
        (case get_bar_seconds s of
           Inl e \<Rightarrow> Inl e
         | Inr bs \<Rightarrow>
             Inr (Some (py_int (fl (fl (of_int (loop_bars s) * fl bs) * of_int (export_fps s))))))
      else Inr None)"

definition budget_spent :: "int option \<Rightarrow> int \<Rightarrow> bool" where
  "budget_spent bar_limit loop_frames =
     (case bar_limit of None \<Rightarrow> False | Some b \<Rightarrow> loop_frames \<ge> b)"

text \<open>
  Each of the four frame loops has the shape
  \<^verbatim>\<open>for ...: if loop_frames >= bar_limit: break; write_frame(...); loop_frames += 1\<close>.
  The function returns the frames written and the new \<^verbatim>\<open>loop_frames\<close>.
\<close>

fun write_frames :: "int option \<Rightarrow> int \<Rightarrow> frame list \<Rightarrow> frame list \<times> int" where
  "write_frames bar_limit loop_frames [] = ([], loop_frames)"
| "write_frames bar_limit loop_frames (f # fs) =
     (if budget_spent bar_limit loop_frames then ([], loop_frames)
      else (case write_frames bar_limit (loop_frames + 1) fs of
              (written, n) \<Rightarrow> (f # written, n)))"

text \<open>The frames each loop would write with no budget: lines 1071--1076, 1081--1084,
  1090--1094 and 1100--1101.\<close>

definition fade_in_frames :: "timing \<Rightarrow> frame_counts \<Rightarrow> string \<Rightarrow> string option \<Rightarrow> frame list" where
  "fade_in_frames t fc word prev_word =
     map (\<lambda>i. let op = (if fade_in_f fc > 0 then of_int i / of_int (fade_in_f fc) else 1)
              in \<lparr> f_phase = FadeIn, f_word = word, f_op = op, f_prev_word = prev_word,
                    f_prev_op = (if gap t < 0 \<and> truthy prev_word then 1 - op else 0) \<rparr>)
       (py_range (fade_in_f fc))"

definition main_frames :: "frame_counts \<Rightarrow> string \<Rightarrow> frame list" where
  "main_frames fc word =
     map (\<lambda>_. \<lparr> f_phase = Hold, f_word = word, f_op = 1, f_prev_word = None, f_prev_op = 0 \<rparr>)
       (py_range (main_f fc))"

definition fade_out_frames :: "frame_counts \<Rightarrow> string \<Rightarrow> frame list" where
  "fade_out_frames fc word =
     map (\<lambda>i. \<lparr> f_phase = FadeOut, f_word = word,
                f_op = (if fade_out_f fc > 0 then 1 - of_int i / of_int (fade_out_f fc) else 0),
                f_prev_word = None, f_prev_op = 0 \<rparr>)
       (py_range (fade_out_f fc))"

definition gap_frames :: "frame_counts \<Rightarrow> frame list" where
  "gap_frames fc =
     map (\<lambda>_. \<lparr> f_phase = Gap, f_word = [], f_op = 0, f_prev_word = None, f_prev_op = 0 \<rparr>)
       (py_range (gap_f fc))"

text \<open>The body of the word loop, lines 1070--1105.\<close>

definition export_word ::
  "timing \<Rightarrow> frame_counts \<Rightarrow> int option \<Rightarrow> int \<Rightarrow> string \<Rightarrow> string option \<Rightarrow> frame list \<times> int" where
  "export_word t fc bar_limit loop_frames word prev_word =
     (case write_frames bar_limit loop_frames (fade_in_frames t fc word prev_word) of
        (a, n1) \<Rightarrow>
     (case write_frames bar_limit n1 (main_frames fc word) of
        (b, n2) \<Rightarrow>
     (case (if gap t \<ge> 0 then write_frames bar_limit n2 (fade_out_frames fc word)
            else ([], n2)) of
        (c, n3) \<Rightarrow>
     (case (if gap t > 0 then write_frames bar_limit n3 (gap_frames fc) else ([], n3)) of
        (d, n4) \<Rightarrow> (a @ b @ c @ d, n4)))))"

text \<open>
  The word loop, lines 1061--1107: \<^verbatim>\<open>word_idx\<close> walks \<^verbatim>\<open>words_to_export\<close>
  from its head, and \<^verbatim>\<open>prev_word\<close> is the word before it, none for the first.
  The result lists the frames of each word the loop entered.
\<close>

fun export_words ::
  "timing \<Rightarrow> frame_counts \<Rightarrow> int option \<Rightarrow> int \<Rightarrow> string option \<Rightarrow> string list \<Rightarrow> frame list list" where
  "export_words t fc bar_limit loop_frames prev_word [] = []"
| "export_words t fc bar_limit loop_frames prev_word (word # rest) =
     (if budget_spent bar_limit loop_frames then []
      else (case export_word t fc bar_limit loop_frames word prev_word of
              (frames, n) \<Rightarrow> frames # export_words t fc bar_limit n (Some word) rest))"

text \<open>
  One iteration of the loop of line 1056, and the whole export. After the last frame
  the thread divides the frame count by the frame rate (line 1112): at a frame rate of
  0 it ends in the error handler, whatever it wrote before.
\<close>

definition export_pass :: "settings \<Rightarrow> timing \<Rightarrow> int option \<Rightarrow> frame list list" where
  "export_pass s t bar_limit =
     export_words t (get_frame_counts t (export_fps s)) bar_limit 0 None
       (py_slice_from (words s) (start_word s - 1))"

definition export_thread :: "settings \<Rightarrow> py_error + frame list" where
  "export_thread s =
     (case get_timing s of Inl e \<Rightarrow> Inl e | Inr t \<Rightarrow>
     (case get_bar_limit s of Inl e \<Rightarrow> Inl e | Inr bar_limit \<Rightarrow>
        if export_fps s = 0 then Inl ZeroDivisionError
        else Inr (concat (map (\<lambda>loop. concat (export_pass s t bar_limit))
                            (py_range (export_loops s))))))"

definition phase_count :: "phase \<Rightarrow> frame list \<Rightarrow> nat" where
  "phase_count ph fs = length (filter (\<lambda>f. f_phase f = ph) fs)"

section \<open>Properties of binary64 rounding\<close>

lemma py_int_nonneg: "0 \<le> x \<Longrightarrow> py_int x = \<lfloor>x\<rfloor>"
  by (simp add: py_int_def)

lemma py_int_pos_iff: "0 < py_int x \<longleftrightarrow> 1 \<le> x"
  by (auto simp: py_int_def)

lemma floor_rat_numeral_div:
  "\<lfloor>numeral a / numeral b :: rat\<rfloor> = numeral a div numeral b"
  using floor_divide_of_int_eq [of "numeral a" "numeral b", where ?'a = rat] by simp

lemma floor_rat_neg_numeral_div:
  "\<lfloor>- (numeral a / numeral b) :: rat\<rfloor> = - numeral a div numeral b"
  using floor_divide_of_int_eq [of "- numeral a" "numeral b", where ?'a = rat] by simp

lemma ceiling_rat_numeral_div:
  "\<lceil>numeral a / numeral b :: rat\<rceil> = - (- numeral a div numeral b)"
  by (simp add: ceiling_def floor_rat_neg_numeral_div)

lemma of_int_le_pow2: "m \<le> 2 ^ n \<Longrightarrow> (of_int m :: rat) \<le> 2 ^ n"
  using of_int_le_iff [of m "2 ^ n", where ?'a = rat] by simp

lemma pow2_le_of_int: "2 ^ n \<le> m \<Longrightarrow> (2 ^ n :: rat) \<le> of_int m"
  using of_int_le_iff [of "2 ^ n" m, where ?'a = rat] by simp

lemma powi_nat: "0 \<le> e \<Longrightarrow> (2::rat) powi e = 2 ^ nat e"
  by (metis int_nat_eq power_int_of_nat)

text \<open>The exponent is the right one.\<close>

lemma expo_bounds:
  assumes "0 < x"
  shows "2 powi expo x \<le> x" and "x < 2 powi (expo x + 1)"
proof -
  have "2 powi expo x \<le> x \<and> x < 2 powi (expo x + 1)"
  proof (cases "1 \<le> x")
    case True
    let ?n = "\<lfloor>x\<rfloor>"
    have n: "0 < ?n" using True by simp
    have e: "expo x = bitlen ?n - 1" using True by (simp add: expo_def)
    have b1: "1 \<le> bitlen ?n" using n by (auto simp: bitlen_alt_def)
    from bitlen_bounds [OF n] have lo: "2 ^ nat (bitlen ?n - 1) \<le> ?n"
      and hi: "?n < 2 ^ nat (bitlen ?n)" by simp_all
    have "(2::rat) powi (bitlen ?n - 1) = 2 ^ nat (bitlen ?n - 1)"
      using b1 by (simp add: powi_nat)
    also have "\<dots> \<le> of_int ?n" using lo by (rule pow2_le_of_int)
    also have "\<dots> \<le> x" by simp
    finally have A: "2 powi expo x \<le> x" by (simp add: e)
    have "?n + 1 \<le> 2 ^ nat (bitlen ?n)" using hi by simp
    then have "(of_int (?n + 1) :: rat) \<le> 2 ^ nat (bitlen ?n)"
      by (rule of_int_le_pow2)
    moreover have "x < of_int (?n + 1)" by linarith
    ultimately have "x < 2 ^ nat (bitlen ?n)" by linarith
    moreover have "(2::rat) powi (bitlen ?n - 1 + 1) = 2 ^ nat (bitlen ?n)"
      using b1 by (simp add: powi_nat)
    ultimately have B: "x < 2 powi (expo x + 1)" by (simp add: e)
    from A B show ?thesis ..
  next
    case False
    then have x1: "x < 1" by simp
    let ?m = "\<lceil>1 / x\<rceil>"
    let ?k = "bitlen (?m - 1)"
    have inv: "1 < 1 / x" using assms x1 by simp
    then have m2: "2 \<le> ?m" by linarith
    then have m1: "0 < ?m - 1" by simp
    have e: "expo x = - ?k" using False by (simp add: expo_def)
    have k1: "1 \<le> ?k" using m1 by (auto simp: bitlen_alt_def)
    from bitlen_bounds [OF m1] have lo: "2 ^ nat (?k - 1) \<le> ?m - 1"
      and hi: "?m - 1 < 2 ^ nat ?k" by simp_all
    have "?m \<le> 2 ^ nat ?k" using hi by simp
    then have "(of_int ?m :: rat) \<le> 2 ^ nat ?k" by (rule of_int_le_pow2)
    moreover have "1 / x \<le> of_int ?m" by simp
    ultimately have "1 / x \<le> 2 ^ nat ?k" by linarith
    then have "1 \<le> 2 ^ nat ?k * x" using assms by (simp add: pos_divide_le_eq)
    then have "1 / 2 ^ nat ?k \<le> x" by (simp add: pos_divide_le_eq mult.commute)
    moreover have "(2::rat) powi (- ?k) = 1 / 2 ^ nat ?k"
      using k1 by (simp add: power_int_minus powi_nat inverse_eq_divide)
    ultimately have A: "2 powi expo x \<le> x" by (simp add: e)
    have "(2 ^ nat (?k - 1) :: rat) \<le> of_int (?m - 1)"
      using lo by (rule pow2_le_of_int)
    moreover have "of_int (?m - 1) < 1 / x" by linarith
    ultimately have "2 ^ nat (?k - 1) < 1 / x" by linarith
    then have "2 ^ nat (?k - 1) * x < 1" using assms by (simp add: pos_less_divide_eq)
    then have "x < 1 / 2 ^ nat (?k - 1)" by (simp add: pos_less_divide_eq mult.commute)
    moreover have "(2::rat) powi (- ?k + 1) = 1 / 2 ^ nat (?k - 1)"
    proof -
      have "- ?k + 1 = - (?k - 1)" by simp
      then have "(2::rat) powi (- ?k + 1) = inverse (2 powi (?k - 1))"
        by (simp only: power_int_minus)
      also have "\<dots> = 1 / 2 ^ nat (?k - 1)"
        using k1 by (simp add: powi_nat inverse_eq_divide)
      finally show ?thesis .
    qed
    ultimately have B: "x < 2 powi (expo x + 1)" by (simp add: e)
    from A B show ?thesis ..
  qed
  then show "2 powi expo x \<le> x" and "x < 2 powi (expo x + 1)" by simp_all
qed

lemma round_even_error: "\<bar>of_int (round_even y) - y\<bar> \<le> 1 / 2"
proof -
  have "of_int \<lfloor>y\<rfloor> \<le> y" and "y < of_int \<lfloor>y\<rfloor> + 1" by linarith+
  then show ?thesis
    by (auto simp: round_even_def Let_def abs_le_iff)
qed

lemma round_even_of_int [simp]: "round_even (of_int n) = n"
  by (simp add: round_even_def)

lemma round_even_numeral [simp]: "round_even (numeral n) = numeral n"
  using round_even_of_int [of "numeral n"] by simp

lemma round_even_nonneg: "0 \<le> y \<Longrightarrow> 0 \<le> round_even y"
  by (auto simp: round_even_def Let_def)

lemma round_even_nonpos: "y \<le> 0 \<Longrightarrow> round_even y \<le> 0"
proof -
  assume y: "y \<le> 0"
  show ?thesis
  proof (cases "y = 0")
    case True then show ?thesis by (simp add: round_even_def)
  next
    case False
    with y have "y < 0" by simp
    then have f: "\<lfloor>y\<rfloor> \<le> - 1" by linarith
    show ?thesis
    proof (cases "\<lfloor>y\<rfloor> = - 1")
      case True
      then show ?thesis by (auto simp: round_even_def Let_def)
    next
      case False
      with f have "\<lfloor>y\<rfloor> + 1 \<le> 0" by simp
      then show ?thesis using f by (auto simp: round_even_def Let_def)
    qed
  qed
qed

text \<open>Rounding keeps the sign and moves a number by at most one part in \<open>2^53\<close>.\<close>

lemma fl_nonneg: "0 \<le> x \<Longrightarrow> 0 \<le> fl x"
proof -
  assume x: "0 \<le> x"
  have u: "(0::rat) < 2 powi (expo \<bar>x\<bar> - 52)" by (simp add: zero_less_power_int)
  then have "0 \<le> x / 2 powi (expo \<bar>x\<bar> - 52)" using x by simp
  then have "0 \<le> round_even (x / 2 powi (expo \<bar>x\<bar> - 52))" by (rule round_even_nonneg)
  then show ?thesis using u by (simp add: fl_def Let_def)
qed

lemma fl_nonpos: "x \<le> 0 \<Longrightarrow> fl x \<le> 0"
proof -
  assume x: "x \<le> 0"
  have u: "(0::rat) < 2 powi (expo \<bar>x\<bar> - 52)" by (simp add: zero_less_power_int)
  then have "x / 2 powi (expo \<bar>x\<bar> - 52) \<le> 0" using x by (simp add: divide_nonpos_pos)
  then have "round_even (x / 2 powi (expo \<bar>x\<bar> - 52)) \<le> 0" by (rule round_even_nonpos)
  then have "of_int (round_even (x / 2 powi (expo \<bar>x\<bar> - 52))) * 2 powi (expo \<bar>x\<bar> - 52) \<le> (0::rat)"
    using u by (simp add: mult_le_0_iff)
  then show ?thesis by (simp add: fl_def Let_def)
qed

lemma fl_error: "\<bar>fl x - x\<bar> \<le> \<bar>x\<bar> / 2 ^ 53"
proof (cases "x = 0")
  case True
  then show ?thesis by (simp add: fl_def)
next
  case False
  let ?e = "expo \<bar>x\<bar>"
  let ?u = "(2::rat) powi (?e - 52)"
  have pos: "0 < \<bar>x\<bar>" using False by simp
  have u: "0 < ?u" by (simp add: zero_less_power_int)
  have "fl x - x = (of_int (round_even (x / ?u)) - x / ?u) * ?u"
    using u False by (simp add: fl_def Let_def algebra_simps)
  then have "\<bar>fl x - x\<bar> = \<bar>of_int (round_even (x / ?u)) - x / ?u\<bar> * ?u"
    using u by (simp add: abs_mult)
  also have "\<dots> \<le> 1 / 2 * ?u"
    using round_even_error [of "x / ?u"] u by (simp add: mult_right_mono)
  also have "\<dots> = 2 powi ?e / 2 ^ 53"
  proof -
    have "?u = 2 powi ?e / 2 powi 52" by (simp add: power_int_diff)
    then show ?thesis by simp
  qed
  also have "\<dots> \<le> \<bar>x\<bar> / 2 ^ 53"
    using expo_bounds(1) [OF pos] by (simp add: divide_right_mono)
  finally show ?thesis .
qed

text \<open>
  The rules that evaluate \<open>fl\<close> at a number written out.
\<close>

lemmas fl_eval = fl_def expo_def round_even_def Let_def compute_bitlen
  floor_rat_numeral_div ceiling_rat_numeral_div

lemma fl_pos: "0 < x \<Longrightarrow> 0 < fl x"
proof -
  assume x: "0 < x"
  let ?u = "(2::rat) powi (expo \<bar>x\<bar> - 52)"
  have u: "0 < ?u" by (simp add: zero_less_power_int)
  have "2 powi expo \<bar>x\<bar> \<le> \<bar>x\<bar>" using expo_bounds(1) [of "\<bar>x\<bar>"] x by simp
  moreover have "(2::rat) powi expo \<bar>x\<bar> = 2 powi 52 * ?u"
    by (simp add: power_int_diff)
  ultimately have "2 powi 52 * ?u \<le> x" using x by simp
  then have "2 powi 52 \<le> x / ?u" using u by (simp add: pos_le_divide_eq)
  moreover have "(1::rat) \<le> 2 powi 52" by simp
  ultimately have "1 \<le> x / ?u" by linarith
  then have "(1 / 2 :: rat) \<le> of_int (round_even (x / ?u))"
    using round_even_error [of "x / ?u"] by linarith
  then have "0 < round_even (x / ?u)" by linarith
  then have "0 < of_int (round_even (x / ?u)) * ?u" using u by simp
  then show ?thesis using x by (simp add: fl_def Let_def)
qed

lemma fl_abs_error: "\<bar>x\<bar> \<le> B \<Longrightarrow> \<bar>fl x - x\<bar> \<le> B / 2 ^ 53"
proof -
  assume "\<bar>x\<bar> \<le> B"
  then have "\<bar>x\<bar> / 2 ^ 53 \<le> B / 2 ^ 53" by (simp add: divide_right_mono)
  with fl_error [of x] show ?thesis by linarith
qed

lemma float_product_error:
  assumes "0 \<le> d" and "0 \<le> k"
  shows "\<bar>fl (fl d * k) - d * k\<bar> \<le> d * k / 2 ^ 51"
proof -
  let ?a = "fl d"
  have a0: "0 \<le> ?a" using assms(1) by (rule fl_nonneg)
  have e1: "\<bar>?a - d\<bar> \<le> d / 2 ^ 53" using fl_error [of d] assms(1) by simp
  have "\<bar>?a * k - d * k\<bar> = \<bar>?a - d\<bar> * k"
    using assms(2) by (simp add: abs_mult left_diff_distrib [symmetric])
  also have "\<dots> \<le> d / 2 ^ 53 * k" using e1 assms(2) by (rule mult_right_mono)
  finally have e2: "\<bar>?a * k - d * k\<bar> \<le> d * k / 2 ^ 53" by simp
  have y0: "0 \<le> ?a * k" using a0 assms(2) by simp
  have dk: "0 \<le> d * k" using assms by simp
  have "?a * k \<le> d * k + d * k / 2 ^ 53" using e2 by linarith
  also have "\<dots> \<le> 2 * (d * k)" using dk by simp
  finally have y2: "\<bar>?a * k\<bar> \<le> 2 * (d * k)" using y0 by simp
  have e3: "\<bar>fl (?a * k) - ?a * k\<bar> \<le> 2 * (d * k) / 2 ^ 53"
    using y2 by (rule fl_abs_error)
  have "\<bar>fl (?a * k) - d * k\<bar> \<le> \<bar>fl (?a * k) - ?a * k\<bar> + \<bar>?a * k - d * k\<bar>"
    by simp
  also have "\<dots> \<le> 2 * (d * k) / 2 ^ 53 + d * k / 2 ^ 53" using e3 e2 by simp
  also have "\<dots> \<le> d * k / 2 ^ 51" using dk by simp
  finally show ?thesis .
qed

lemma fl_eps_error:
  assumes "\<bar>x\<bar> \<le> B" and "eps = 1 / 2 ^ 53"
  shows "\<bar>fl x - x\<bar> \<le> B * eps"
proof -
  have "B * eps = B / 2 ^ 53" by (simp add: assms(2))
  with fl_abs_error [OF assms(1)] show ?thesis by (simp only:)
qed

lemma blend_error:
  assumes "0 \<le> op" and "op \<le> 1" and "0 \<le> f" and "f \<le> 255" and "0 \<le> b" and "b \<le> 255"
  shows "\<bar>fl (fl (f * op) + fl (b * fl (1 - op))) - (f * op + b * (1 - op))\<bar> \<le> 1 / 2 ^ 42"
proof -
  define eps :: rat where "eps = 1 / 2 ^ 53"
  have eps0: "0 < eps" and eps1: "eps \<le> 1 / 1024" and eps2: "2044 * eps \<le> 1 / 2 ^ 42"
    by (simp_all add: eps_def)
  let ?a = "f * op" and ?q = "1 - op"
  have a0: "0 \<le> ?a" using assms by simp
  have a1: "?a \<le> 255" using mult_mono [of f 255 op 1] assms by simp
  have q0: "0 \<le> ?q" and q1: "?q \<le> 1" using assms by simp_all
  have ea: "\<bar>fl ?a - ?a\<bar> \<le> 255 * eps"
    by (rule fl_eps_error [OF _ eps_def]) (use a0 a1 in simp)
  have eq: "\<bar>fl ?q - ?q\<bar> \<le> 1 * eps"
    by (rule fl_eps_error [OF _ eps_def]) (use q0 q1 in simp)
  have fq0: "0 \<le> fl ?q" using q0 by (rule fl_nonneg)
  have fq2: "fl ?q \<le> 2" using eq q1 eps1 by linarith
  let ?c = "b * fl ?q"
  have "\<bar>?c - b * ?q\<bar> = b * \<bar>fl ?q - ?q\<bar>"
    using assms(5) by (simp add: abs_mult right_diff_distrib [symmetric])
  also have "\<dots> \<le> 255 * (1 * eps)"
    using assms(6) eq by (rule mult_mono) (use assms(5) in simp_all)
  finally have ec: "\<bar>?c - b * ?q\<bar> \<le> 255 * eps" by simp
  have c0: "0 \<le> ?c" using assms(5) fq0 by simp
  have c1: "?c \<le> 255 * 2" using assms(6) fq2 by (rule mult_mono) (use assms(5) fq0 in simp_all)
  have efc: "\<bar>fl ?c - ?c\<bar> \<le> 510 * eps"
    by (rule fl_eps_error [OF _ eps_def]) (use c0 c1 in simp)
  let ?s = "fl ?a + fl ?c"
  have bq0: "0 \<le> b * ?q" using assms(5) q0 by simp
  have bq1: "b * ?q \<le> 255" using mult_mono [of b 255 ?q 1] assms(5,6) q0 q1 by simp
  have es: "\<bar>?s - (?a + b * ?q)\<bar> \<le> 1020 * eps"
    using ea ec efc by linarith
  have s1: "\<bar>?s\<bar> \<le> 1024"
    using es a0 a1 bq0 bq1 eps0 eps1 by linarith
  have efs: "\<bar>fl ?s - ?s\<bar> \<le> 1024 * eps"
    using s1 by (rule fl_eps_error [OF _ eps_def])
  have "\<bar>fl ?s - (?a + b * ?q)\<bar> \<le> 2044 * eps"
    using es efs by linarith
  with eps2 show ?thesis by linarith
qed

section \<open>Properties of the time model\<close>

lemma dict_get_note_values:
  "dict_get note_values n 1 =
     (if n = ''1/32'' then 1 / 8 else if n = ''1/16'' then 1 / 4
      else if n = ''1/8'' then 1 / 2 else if n = ''1/4'' then 1
      else if n = ''1/2'' then 2 else if n = ''1'' then 4
      else if n = ''2'' then 8 else if n = ''4'' then 16
      else if n = ''8'' then 32 else if n = ''16'' then 64 else 1)"
  by (simp add: dict_get_def note_values_def)

text \<open>
  C5. The token of no duration, which the specification calls "none", is spelt
  \<^verbatim>\<open>"0"\<close> in the code (line 443, and the choices of the boxes that offer it,
  lines 299--333): it converts to 0 seconds at every tempo. For every tempo other than
  0, so for every tempo of the valid range 20 to 300, each of the ten note tokens
  converts to \<open>factor * 60 / bpm\<close> seconds, the factor being 1/8 for "1/32", 1/4
  for "1/16", 1/2 for "1/8", 1 for "1/4", 2 for "1/2", 4 for "1", 8 for "2", 16 for
  "4", 32 for "8" and 64 for "16". In particular a quarter note at 120 bpm lasts half
  a second.
\<close>

theorem note_to_seconds_table:
  "note_to_seconds s ''0'' = Inr 0
   \<and> (bpm s \<noteq> 0 \<longrightarrow>
        map (note_to_seconds s)
          [''1/32'', ''1/16'', ''1/8'', ''1/4'', ''1/2'', ''1'', ''2'', ''4'', ''8'', ''16'']
        = map (\<lambda>f. Inr (f * 60 / of_int (bpm s)))
            [1 / 8, 1 / 4, 1 / 2, 1, 2, 4, 8, 16, 32, 64])
   \<and> (bpm s = 120 \<longrightarrow> note_to_seconds s ''1/4'' = Inr (1 / 2))"
  by (simp add: note_to_seconds_def dict_get_note_values)

theorem note_to_seconds_table_witness:
  "note_to_seconds (init_settings []) ''0'' = Inr 0
   \<and> note_to_seconds (init_settings []) ''1/4'' = Inr (1 / 2)
   \<and> note_to_seconds (init_settings []) ''1/32'' = Inr (1 / 16)
   \<and> note_to_seconds (init_settings []) ''16'' = Inr 32"
  using note_to_seconds_table [of "init_settings []"]
  by (simp add: init_settings_def)

section \<open>Properties of the blend\<close>

lemma blend_value_nonneg:
  assumes "0 \<le> opacity" and "opacity \<le> 1" and "0 \<le> f" and "0 \<le> b"
  shows "0 \<le> fl (fl (of_int f * opacity) + fl (of_int b * fl (1 - opacity)))"
proof -
  have "0 \<le> fl (of_int f * opacity)"
    using assms by (simp add: fl_nonneg)
  moreover have "0 \<le> fl (1 - opacity)"
    using assms by (simp add: fl_nonneg)
  then have "0 \<le> fl (of_int b * fl (1 - opacity))"
    using assms by (simp add: fl_nonneg)
  ultimately show ?thesis by (simp add: fl_nonneg)
qed

lemma int_part_withinI:
  assumes "\<bar>v - x\<bar> \<le> err"
  shows "int_part_within err x \<lfloor>v\<rfloor>"
proof -
  have "of_int \<lfloor>v\<rfloor> \<le> v" and "v < of_int \<lfloor>v\<rfloor> + 1" by linarith+
  with assms show ?thesis unfolding int_part_within_def by linarith
qed

text \<open>
  C6, as the code has it. For colour channels from 0 to 255 and an opacity in [0,1],
  \<^verbatim>\<open>blend_color\<close> computes each output channel as
  \<open>int(fg*opacity + bg*(1-opacity))\<close>: the float value of the linear interpolation
  of the two channels, truncated to the integer below it and not rounded to the
  nearest one. The float value lies within \<open>2^-42\<close> of the exact interpolation, so
  the channel is the integer part of the interpolation up to that. The result has one
  channel for each pair of input channels.
\<close>

theorem blend_color_truncates:
  assumes "0 \<le> opacity" and "opacity \<le> 1"
    and "\<forall>c \<in> set fg_rgb. 0 \<le> c \<and> c \<le> 255" and "\<forall>c \<in> set bg_rgb. 0 \<le> c \<and> c \<le> 255"
    and "i < length fg_rgb" and "i < length bg_rgb"
  shows "length (blend_color fg_rgb bg_rgb opacity) = min (length fg_rgb) (length bg_rgb)
     \<and> blend_color fg_rgb bg_rgb opacity ! i
       = \<lfloor>fl (fl (of_int (fg_rgb ! i) * opacity)
               + fl (of_int (bg_rgb ! i) * fl (1 - opacity)))\<rfloor>
     \<and> int_part_within (1 / 2 ^ 42)
         (of_int (fg_rgb ! i) * opacity + of_int (bg_rgb ! i) * (1 - opacity))
         (blend_color fg_rgb bg_rgb opacity ! i)"
proof -
  let ?f = "fg_rgb ! i" and ?b = "bg_rgb ! i"
  let ?v = "fl (fl (of_int ?f * opacity) + fl (of_int ?b * fl (1 - opacity)))"
  have f: "0 \<le> ?f" "?f \<le> 255" and b: "0 \<le> ?b" "?b \<le> 255"
    using assms by simp_all
  have "0 \<le> ?v"
    using blend_value_nonneg [OF assms(1) assms(2) f(1) b(1)] .
  then have val: "blend_color fg_rgb bg_rgb opacity ! i = \<lfloor>?v\<rfloor>"
    using assms(5) assms(6) by (simp add: blend_color_def py_int_nonneg)
  have "\<bar>?v - (of_int ?f * opacity + of_int ?b * (1 - opacity))\<bar> \<le> 1 / 2 ^ 42"
    by (rule blend_error) (use assms(1,2) f b in simp_all)
  then have "int_part_within (1 / 2 ^ 42)
      (of_int ?f * opacity + of_int ?b * (1 - opacity)) \<lfloor>?v\<rfloor>"
    by (rule int_part_withinI)
  then show ?thesis using val by (simp add: blend_color_def)
qed

theorem blend_color_truncates_witness:
  "blend_color [255, 128, 0] [0, 0, 255] (1 / 4) ! 0 = 63
   \<and> length (blend_color [255, 128, 0] [0, 0, 255] (1 / 4)) = 3"
  using blend_color_truncates [of "1 / 4" "[255, 128, 0]" "[0, 0, 255]" 0]
  by (simp add: fl_eval)

text \<open>
  C6 as stated fails: white over black at opacity 1/4 interpolates to 63.75 in each
  channel, in floats exactly; the nearest integer is 64, the code returns 63.
\<close>

theorem blend_color_round_counterexample:
  "blend_color [255, 255, 255] [0, 0, 0] (1 / 4) = [63, 63, 63]
   \<and> round (of_int 255 * (1 / 4) + of_int 0 * (1 - 1 / 4) :: rat) = 64"
  by (simp add: blend_color_def py_int_def round_def fl_eval)

text \<open>
  The rounding of the floats shows in the channel. At step 12 of the 20 steps of a live
  fade-in the opacity is the float of 12/20, a little below 3/5: its exact product
  with 255 has the integer part 152, the float product rounds to 153. At step 16 of a
  fade-out the opacity is the float of \<open>1 - 16/20\<close>, a little below 1/5, and the
  channel is 50, not 51.
\<close>

lemma blend_color_float_steps:
  "blend_color [255, 255, 255] [0, 0, 0] (fl (12 / 20)) = [153, 153, 153]
   \<and> \<lfloor>255 * fl (12 / 20)\<rfloor> = 152
   \<and> blend_color [255, 255, 255] [0, 0, 0] (fl (1 - fl (16 / 20))) = [50, 50, 50]"
  by (simp add: blend_color_def py_int_def fl_eval)

text \<open>
  C8, as the code has it. When the export is not transparent, the exporter's compositor
  draws exactly what the live preview draws for the same words and opacities: the same
  background, the same texts, each filled with the same blended colour.
\<close>

theorem render_frame_matches_display_word:
  "render_frame word op prev_word prev_op (bg_color s) (font_color s) False
     = display_word s word op prev_word prev_op"
  by (simp add: render_frame_def display_word_def render_fill_def blend_color_def)

text \<open>
  C8 as stated fails for a transparent export: the word is filled with the unblended
  foreground and an alpha of \<open>int(255 * opacity)\<close>, where the preview fills it with
  the blend.
\<close>

theorem render_frame_alpha_counterexample:
  "layers (render_frame ''la'' (1 / 2) None 0 [0, 0, 0] [255, 255, 255] True)
     = [\<lparr> text_of = ''la'', fill = [255, 255, 255, 127] \<rparr>]
   \<and> layers (display_word (init_settings [''la'']) ''la'' (1 / 2) None 0)
     = [\<lparr> text_of = ''la'', fill = [127, 127, 127] \<rparr>]"
  by (simp add: render_frame_def display_word_def render_fill_def blend_color_def
      py_int_def init_settings_def fl_eval)

section \<open>Properties of the derived durations\<close>

lemma dict_get_note_values_pos: "0 < dict_get note_values n 1"
  by (simp add: dict_get_note_values)

lemma note_to_seconds_nonneg:
  assumes "0 < bpm s" and "note_to_seconds s n = Inr d"
  shows "0 \<le> d"
proof (cases "n = ''0''")
  case True
  with assms show ?thesis by (simp add: note_to_seconds_def)
next
  case False
  with assms have "d = dict_get note_values n 1 * 60 / of_int (bpm s)"
    by (simp add: note_to_seconds_def)
  moreover have "0 < dict_get note_values n 1 * 60 / (of_int (bpm s) :: rat)"
    using assms(1) dict_get_note_values_pos [of n] by simp
  ultimately show ?thesis by simp
qed

lemma get_timing_Inr:
  assumes "get_timing s = Inr t"
  shows "note_to_seconds s (word_note_value s) = Inr (word_dur t)"
    and "note_to_seconds s (fade_in_note s) = Inr (fade_in t)"
    and "note_to_seconds s (fade_out_note s) = Inr (fade_out t)"
    and "\<exists>g. note_to_seconds s (gap_note s) = Inr g \<and> gap t = (if gap_negative s then - g else g)"
  using assms by (auto simp: get_timing_def split: sum.splits)

lemma get_timing_nonneg:
  assumes "0 < bpm s" and "get_timing s = Inr t"
  shows "0 \<le> word_dur t" and "0 \<le> fade_in t" and "0 \<le> fade_out t"
  using get_timing_Inr [OF assms(2)] note_to_seconds_nonneg [OF assms(1)] by blast+

lemma get_timing_total:
  assumes "bpm s \<noteq> 0"
  shows "\<exists>t. get_timing s = Inr t"
  using assms by (simp add: get_timing_def note_to_seconds_def)

lemma get_timing_init:
  "get_timing (init_settings ws)
     = Inr \<lparr> word_dur = 1 / 2, fade_in = 1 / 8, fade_out = 1 / 8, gap = 0 \<rparr>"
  by (simp add: get_timing_def note_to_seconds_def dict_get_note_values init_settings_def)

section \<open>Properties of the exporter\<close>

lemma write_frames_unlimited: "write_frames None n fs = (fs, n + int (length fs))"
  by (induction fs arbitrary: n) (simp_all add: budget_spent_def)

lemma write_frames_take:
  "write_frames (Some b) n fs = (take (nat (b - n)) fs, n + int (min (length fs) (nat (b - n))))"
proof (induction fs arbitrary: n)
  case Nil
  then show ?case by simp
next
  case (Cons f fs)
  show ?case
  proof (cases "n \<ge> b")
    case True
    then show ?thesis by (simp add: budget_spent_def)
  next
    case False
    then have "nat (b - n) = Suc (nat (b - (n + 1)))" by simp
    with False Cons [of "n + 1"] show ?thesis
      by (simp add: budget_spent_def)
  qed
qed

lemma phase_count_append: "phase_count ph (xs @ ys) = phase_count ph xs + phase_count ph ys"
  by (simp add: phase_count_def)

lemma phase_count_fade_in_frames:
  "phase_count ph (fade_in_frames t fc w p) = (if ph = FadeIn then nat (fade_in_f fc) else 0)"
  by (simp add: phase_count_def fade_in_frames_def py_range_def Let_def filter_map comp_def)

lemma phase_count_main_frames:
  "phase_count ph (main_frames fc w) = (if ph = Hold then nat (main_f fc) else 0)"
  by (simp add: phase_count_def main_frames_def py_range_def filter_map comp_def)

lemma phase_count_fade_out_frames:
  "phase_count ph (fade_out_frames fc w) = (if ph = FadeOut then nat (fade_out_f fc) else 0)"
  by (simp add: phase_count_def fade_out_frames_def py_range_def filter_map comp_def)

lemma phase_count_gap_frames:
  "phase_count ph (gap_frames fc) = (if ph = Gap then nat (gap_f fc) else 0)"
  by (simp add: phase_count_def gap_frames_def py_range_def filter_map comp_def)

lemma export_word_unlimited:
  "export_word t fc None n w p =
     (fade_in_frames t fc w p @ main_frames fc w
        @ (if gap t \<ge> 0 then fade_out_frames fc w else [])
        @ (if gap t > 0 then gap_frames fc else []),
      n + int (length (fade_in_frames t fc w p)) + int (length (main_frames fc w))
        + (if gap t \<ge> 0 then int (length (fade_out_frames fc w)) else 0)
        + (if gap t > 0 then int (length (gap_frames fc)) else 0))"
  by (simp add: export_word_def write_frames_unlimited)

lemma write_frames_prefix: "\<exists>k. fst (write_frames bl n fs) = take k fs"
proof (cases bl)
  case None
  then have "fst (write_frames bl n fs) = take (length fs) fs"
    by (simp add: write_frames_unlimited)
  then show ?thesis by blast
next
  case (Some b)
  then show ?thesis by (auto simp: write_frames_take)
qed

lemma write_frames_snd: "snd (write_frames bl n fs) = n + int (length (fst (write_frames bl n fs)))"
  by (cases bl) (auto simp: write_frames_unlimited write_frames_take)

lemma export_word_parts:
  "\<exists>k1 k2 k3 k4. fst (export_word t fc bl n w p) =
      take k1 (fade_in_frames t fc w p) @ take k2 (main_frames fc w)
        @ (if gap t \<ge> 0 then take k3 (fade_out_frames fc w) else [])
        @ (if gap t > 0 then take k4 (gap_frames fc) else [])"
proof -
  obtain a n1 where A: "write_frames bl n (fade_in_frames t fc w p) = (a, n1)"
    by (cases "write_frames bl n (fade_in_frames t fc w p)")
  obtain b n2 where B: "write_frames bl n1 (main_frames fc w) = (b, n2)"
    by (cases "write_frames bl n1 (main_frames fc w)")
  obtain c n3 where C: "write_frames bl n2 (fade_out_frames fc w) = (c, n3)"
    by (cases "write_frames bl n2 (fade_out_frames fc w)")
  obtain d1 m1 where D1: "write_frames bl n3 (gap_frames fc) = (d1, m1)"
    by (cases "write_frames bl n3 (gap_frames fc)")
  obtain d2 m2 where D2: "write_frames bl n2 (gap_frames fc) = (d2, m2)"
    by (cases "write_frames bl n2 (gap_frames fc)")
  obtain k1 where K1: "a = take k1 (fade_in_frames t fc w p)"
    using write_frames_prefix [of bl n "fade_in_frames t fc w p"] A by auto
  obtain k2 where K2: "b = take k2 (main_frames fc w)"
    using write_frames_prefix [of bl n1 "main_frames fc w"] B by auto
  obtain k3 where K3: "c = take k3 (fade_out_frames fc w)"
    using write_frames_prefix [of bl n2 "fade_out_frames fc w"] C by auto
  obtain k4 where K4: "d1 = take k4 (gap_frames fc)"
    using write_frames_prefix [of bl n3 "gap_frames fc"] D1 by auto
  have "fst (export_word t fc bl n w p) =
      take k1 (fade_in_frames t fc w p) @ take k2 (main_frames fc w)
        @ (if gap t \<ge> 0 then take k3 (fade_out_frames fc w) else [])
        @ (if gap t > 0 then take k4 (gap_frames fc) else [])"
    using A B C D1 D2 K1 K2 K3 K4 by (simp add: export_word_def)
  then show ?thesis by blast
qed

lemma phase_count_take_le: "phase_count ph (take k fs) \<le> phase_count ph fs"
proof -
  have "phase_count ph fs = phase_count ph (take k fs) + phase_count ph (drop k fs)"
    using phase_count_append [of ph "take k fs" "drop k fs"] by simp
  then show ?thesis by simp
qed

lemma phase_count_take_zero: "phase_count ph fs = 0 \<Longrightarrow> phase_count ph (take k fs) = 0"
  using phase_count_take_le [of ph k fs] by simp

lemma export_word_fade_out_le:
  "phase_count FadeOut (fst (export_word t fc bl n w p))
     \<le> (if gap t \<ge> 0 then nat (fade_out_f fc) else 0)"
proof -
  obtain k1 k2 k3 k4 where E: "fst (export_word t fc bl n w p) =
      take k1 (fade_in_frames t fc w p) @ take k2 (main_frames fc w)
        @ (if gap t \<ge> 0 then take k3 (fade_out_frames fc w) else [])
        @ (if gap t > 0 then take k4 (gap_frames fc) else [])"
    using export_word_parts by blast
  have 1: "phase_count FadeOut (take k1 (fade_in_frames t fc w p)) = 0"
    by (rule phase_count_take_zero) (simp add: phase_count_fade_in_frames)
  have 2: "phase_count FadeOut (take k2 (main_frames fc w)) = 0"
    by (rule phase_count_take_zero) (simp add: phase_count_main_frames)
  have 3: "phase_count FadeOut (take k4 (gap_frames fc)) = 0"
    by (rule phase_count_take_zero) (simp add: phase_count_gap_frames)
  have 4: "phase_count FadeOut (take k3 (fade_out_frames fc w)) \<le> nat (fade_out_f fc)"
    using phase_count_take_le [of FadeOut k3 "fade_out_frames fc w"]
    by (simp add: phase_count_fade_out_frames)
  have 5: "phase_count FadeOut [] = 0" by (simp add: phase_count_def)
  show ?thesis
    unfolding E using 1 2 3 4 5 by (simp add: phase_count_append)
qed

lemma phase_count_Nil: "phase_count ph [] = 0"
  by (simp add: phase_count_def)

lemma export_word_unlimited_counts:
  "phase_count FadeIn (fst (export_word t fc None n w p)) = nat (fade_in_f fc)"
  "phase_count Hold (fst (export_word t fc None n w p)) = nat (main_f fc)"
  "phase_count FadeOut (fst (export_word t fc None n w p))
     = (if gap t \<ge> 0 then nat (fade_out_f fc) else 0)"
  "phase_count Gap (fst (export_word t fc None n w p))
     = (if gap t > 0 then nat (gap_f fc) else 0)"
  by (simp_all add: export_word_unlimited phase_count_append phase_count_Nil
      phase_count_fade_in_frames phase_count_main_frames phase_count_fade_out_frames
      phase_count_gap_frames)

lemma float_frames_nonneg:
  assumes "0 \<le> fps" and "0 \<le> d"
  shows "0 \<le> fl (fl d * of_int fps)"
proof -
  have "0 \<le> fl d" using assms(2) by (rule fl_nonneg)
  moreover have "(0::rat) \<le> of_int fps" using assms(1) by simp
  ultimately have "0 \<le> fl d * of_int fps" by (rule mult_nonneg_nonneg)
  then show ?thesis by (rule fl_nonneg)
qed

lemma get_frame_counts_floor:
  assumes "0 \<le> fps" and "0 \<le> word_dur t" and "0 \<le> fade_in t" and "0 \<le> fade_out t"
  shows "fade_in_f (get_frame_counts t fps) = \<lfloor>fl (fl (fade_in t) * of_int fps)\<rfloor>"
    and "fade_out_f (get_frame_counts t fps) = \<lfloor>fl (fl (fade_out t) * of_int fps)\<rfloor>"
    and "gap_f (get_frame_counts t fps)
           = (if gap t > 0 then \<lfloor>fl (fl (gap t) * of_int fps)\<rfloor> else 0)"
    and "main_f (get_frame_counts t fps)
           = max 1 (\<lfloor>fl (fl (word_dur t) * of_int fps)\<rfloor> - \<lfloor>fl (fl (fade_in t) * of_int fps)\<rfloor>
                     - \<lfloor>fl (fl (fade_out t) * of_int fps)\<rfloor>)"
proof -
  have a: "py_int (fl (fl (fade_in t) * of_int fps)) = \<lfloor>fl (fl (fade_in t) * of_int fps)\<rfloor>"
    using float_frames_nonneg [OF assms(1) assms(3)] by (simp add: py_int_nonneg)
  have b: "py_int (fl (fl (fade_out t) * of_int fps)) = \<lfloor>fl (fl (fade_out t) * of_int fps)\<rfloor>"
    using float_frames_nonneg [OF assms(1) assms(4)] by (simp add: py_int_nonneg)
  have c: "py_int (fl (fl (word_dur t) * of_int fps)) = \<lfloor>fl (fl (word_dur t) * of_int fps)\<rfloor>"
    using float_frames_nonneg [OF assms(1) assms(2)] by (simp add: py_int_nonneg)
  have d: "py_int (fl (\<bar>fl (gap t)\<bar> * of_int fps)) = \<lfloor>fl (fl (gap t) * of_int fps)\<rfloor>"
    if "0 < gap t"
  proof -
    have g: "0 \<le> gap t" using that by simp
    have "0 \<le> fl (gap t)" using g by (rule fl_nonneg)
    then have "\<bar>fl (gap t)\<bar> = fl (gap t)" by simp
    then show ?thesis
      using float_frames_nonneg [OF assms(1) g] by (simp add: py_int_nonneg)
  qed
  show "fade_in_f (get_frame_counts t fps) = \<lfloor>fl (fl (fade_in t) * of_int fps)\<rfloor>"
    using a by (simp add: get_frame_counts_def Let_def)
  show "fade_out_f (get_frame_counts t fps) = \<lfloor>fl (fl (fade_out t) * of_int fps)\<rfloor>"
    using b by (simp add: get_frame_counts_def Let_def)
  show "gap_f (get_frame_counts t fps)
           = (if gap t > 0 then \<lfloor>fl (fl (gap t) * of_int fps)\<rfloor> else 0)"
    using d by (simp add: get_frame_counts_def Let_def)
  show "main_f (get_frame_counts t fps)
           = max 1 (\<lfloor>fl (fl (word_dur t) * of_int fps)\<rfloor> - \<lfloor>fl (fl (fade_in t) * of_int fps)\<rfloor>
                     - \<lfloor>fl (fl (fade_out t) * of_int fps)\<rfloor>)"
    using a b c by (simp add: get_frame_counts_def Let_def)
qed

lemma float_frames_within:
  assumes "0 \<le> fps" and "0 \<le> d"
  shows "int_part_within (d * of_int fps / 2 ^ 51) (d * of_int fps) \<lfloor>fl (fl d * of_int fps)\<rfloor>"
proof -
  have "(0::rat) \<le> of_int fps" using assms(1) by simp
  with assms(2) have "\<bar>fl (fl d * of_int fps) - d * of_int fps\<bar> \<le> d * of_int fps / 2 ^ 51"
    by (rule float_product_error)
  then show ?thesis by (rule int_part_withinI)
qed

text \<open>
  C7, as the code has it. For a tempo above 0 and a frame rate that is not negative, the
  exporter allots to the phases of a word \<open>int(duration * fps)\<close> frames, the float
  product truncated down and not rounded: with \<open>frames d\<close> the integer part of the
  float product of the float duration \<open>d\<close> and the frame rate, \<open>frames fadeIn\<close>
  fade-in frames, \<open>frames fadeOut\<close> fade-out frames, \<open>frames gap\<close> gap frames when
  the gap is above 0 and none otherwise, and for the hold the word's
  \<open>frames wordDuration\<close> frames less both fade counts, but at least 1. The float
  product lies within \<open>duration * fps / 2^51\<close> of the exact product, so each count is
  the integer part of \<open>duration * fps\<close> up to that. With no bar budget a word gets
  exactly these frames, the fade-out ones only when the gap is not negative.
\<close>

theorem export_phase_frame_counts:
  assumes "0 < bpm s" and "0 \<le> export_fps s" and "get_timing s = Inr t"
  shows "let fps = of_int (export_fps s);
             fc = get_frame_counts t (export_fps s);
             frames = fst (export_word t fc None n w p)
         in fade_in_f fc = \<lfloor>fl (fl (fade_in t) * fps)\<rfloor>
          \<and> fade_out_f fc = \<lfloor>fl (fl (fade_out t) * fps)\<rfloor>
          \<and> gap_f fc = (if gap t > 0 then \<lfloor>fl (fl (gap t) * fps)\<rfloor> else 0)
          \<and> main_f fc = max 1 (\<lfloor>fl (fl (word_dur t) * fps)\<rfloor> - fade_in_f fc - fade_out_f fc)
          \<and> int_part_within (fade_in t * fps / 2 ^ 51) (fade_in t * fps) (fade_in_f fc)
          \<and> int_part_within (fade_out t * fps / 2 ^ 51) (fade_out t * fps) (fade_out_f fc)
          \<and> (gap t > 0 \<longrightarrow> int_part_within (gap t * fps / 2 ^ 51) (gap t * fps) (gap_f fc))
          \<and> phase_count FadeIn frames = nat (fade_in_f fc)
          \<and> phase_count Hold frames = nat (main_f fc)
          \<and> phase_count FadeOut frames = (if gap t \<ge> 0 then nat (fade_out_f fc) else 0)
          \<and> phase_count Gap frames = nat (gap_f fc)"
proof -
  let ?fps = "export_fps s"
  let ?fc = "get_frame_counts t ?fps"
  have nn: "0 \<le> word_dur t" "0 \<le> fade_in t" "0 \<le> fade_out t"
    using get_timing_nonneg [OF assms(1) assms(3)] by simp_all
  note cnt = get_frame_counts_floor [OF assms(2) nn]
  have g: "(if gap t > 0 then nat (gap_f ?fc) else 0) = nat (gap_f ?fc)"
    by (simp add: cnt(3))
  have w1: "int_part_within (fade_in t * of_int ?fps / 2 ^ 51) (fade_in t * of_int ?fps)
      (fade_in_f ?fc)"
    unfolding cnt(1) using assms(2) nn(2) by (rule float_frames_within)
  have w2: "int_part_within (fade_out t * of_int ?fps / 2 ^ 51) (fade_out t * of_int ?fps)
      (fade_out_f ?fc)"
    unfolding cnt(2) using assms(2) nn(3) by (rule float_frames_within)
  have w3: "gap t > 0 \<longrightarrow>
      int_part_within (gap t * of_int ?fps / 2 ^ 51) (gap t * of_int ?fps) (gap_f ?fc)"
  proof
    assume pos: "gap t > 0"
    then have "0 \<le> gap t" by simp
    with assms(2) have "int_part_within (gap t * of_int ?fps / 2 ^ 51) (gap t * of_int ?fps)
        \<lfloor>fl (fl (gap t) * of_int ?fps)\<rfloor>"
      by (rule float_frames_within)
    then show "int_part_within (gap t * of_int ?fps / 2 ^ 51) (gap t * of_int ?fps) (gap_f ?fc)"
      using pos by (simp add: cnt(3))
  qed
  have m: "main_f ?fc = max 1 (\<lfloor>fl (fl (word_dur t) * of_int ?fps)\<rfloor> - fade_in_f ?fc
      - fade_out_f ?fc)"
    by (simp only: cnt)
  show ?thesis
    unfolding Let_def export_word_unlimited_counts g
    using cnt(1) cnt(2) cnt(3) m w1 w2 w3 by simp
qed

theorem export_phase_frame_counts_witness:
  "phase_count FadeIn (fst (export_word
       \<lparr> word_dur = 1 / 2, fade_in = 1 / 8, fade_out = 1 / 8, gap = 0 \<rparr>
       (get_frame_counts \<lparr> word_dur = 1 / 2, fade_in = 1 / 8, fade_out = 1 / 8, gap = 0 \<rparr> 30)
       None 0 ''la'' None)) = 3
   \<and> phase_count Hold (fst (export_word
       \<lparr> word_dur = 1 / 2, fade_in = 1 / 8, fade_out = 1 / 8, gap = 0 \<rparr>
       (get_frame_counts \<lparr> word_dur = 1 / 2, fade_in = 1 / 8, fade_out = 1 / 8, gap = 0 \<rparr> 30)
       None 0 ''la'' None)) = 9"
proof -
  have h1: "0 < bpm (init_settings [''la''])"
    by (simp add: init_settings_def)
  have h2: "0 \<le> export_fps (init_settings [''la''])"
    by (simp add: init_settings_def)
  have fps: "export_fps (init_settings [''la'']) = 30"
    by (simp add: init_settings_def)
  have v: "\<lfloor>fl (fl (1 / 8) * 30)\<rfloor> = 3" "\<lfloor>fl (fl (1 / 2) * 30)\<rfloor> = 15"
    by (simp_all add: fl_eval)
  show ?thesis
    using export_phase_frame_counts [OF h1 h2 get_timing_init, of 0 "''la''" None]
    unfolding fps Let_def by (simp add: v)
qed

text \<open>
  C7 as stated fails at the settings the program starts with: a fade-in of a sixteenth
  note at 120 bpm lasts 1/8 s, which is 3.75 frames at 30 frames a second, in floats
  exactly; the exporter allots 3 frames, rounding would give 4.
\<close>

theorem frame_counts_round_counterexample:
  "get_timing (init_settings [''la''])
     = Inr \<lparr> word_dur = 1 / 2, fade_in = 1 / 8, fade_out = 1 / 8, gap = 0 \<rparr>
   \<and> fade_in_f (get_frame_counts
        \<lparr> word_dur = 1 / 2, fade_in = 1 / 8, fade_out = 1 / 8, gap = 0 \<rparr>
        (export_fps (init_settings [''la'']))) = 3
   \<and> round (1 / 8 * of_int (export_fps (init_settings [''la''])) :: rat) = 4"
proof -
  have fps: "export_fps (init_settings [''la'']) = 30"
    by (simp add: init_settings_def)
  show ?thesis
    unfolding fps
    by (simp add: get_timing_init get_frame_counts_def py_int_def round_def fl_eval)
qed

text \<open>
  The rounding of the floats shows in the count. At 22 bpm a sixteenth note lasts
  15/22 s, and at 22 frames a second that is 15 frames exactly; the float of 15/22
  times 22 is a little below 15, and the exporter allots 14 frames.
\<close>

lemma frame_counts_float_product:
  "fade_in_f (get_frame_counts \<lparr> word_dur = 30 / 11, fade_in = 15 / 22, fade_out = 0, gap = 0 \<rparr> 22)
     = 14
   \<and> \<lfloor>15 / 22 * 22 :: rat\<rfloor> = 15"
  by (simp add: get_frame_counts_def py_int_def fl_eval)

section \<open>Fade-out and cross-dissolve\<close>

lemma live_word_fade_out_iff:
  "(\<exists>seg \<in> set (live_word t w p). phase_of seg = FadeOut) \<longleftrightarrow> (fade_out t > 0 \<and> gap t \<ge> 0)"
  by (auto simp: live_word_def live_fade_in_def live_main_def live_fade_out_def live_gap_def Let_def)

lemma live_word_fade_out_calls:
  assumes "seg \<in> set (live_word t w p)" and "phase_of seg = FadeOut"
  shows "calls seg = map (\<lambda>i. Display_word w (1 - of_int i / 20) None 0) (py_range 21)"
  using assms
  by (auto simp: live_word_def live_fade_in_def live_main_def live_fade_out_def live_gap_def
      Let_def fade_steps_def split: if_splits)

lemma float_frames_pos:
  assumes "0 \<le> fps" and "1 \<le> fl (fl d * of_int fps)"
  shows "0 < d"
proof (rule ccontr)
  assume "\<not> 0 < d"
  then have "d \<le> 0" by simp
  then have "fl d \<le> 0" by (rule fl_nonpos)
  moreover have "(0::rat) \<le> of_int fps" using assms(1) by simp
  ultimately have "fl d * of_int fps \<le> 0" by (rule mult_nonpos_nonneg)
  then have "fl (fl d * of_int fps) \<le> 0" by (rule fl_nonpos)
  with assms(2) show False by simp
qed

lemma export_word_fade_out_only_if:
  assumes "0 \<le> fps" and "0 < phase_count FadeOut (fst (export_word t (get_frame_counts t fps) bl n w p))"
  shows "fade_out t > 0 \<and> gap t \<ge> 0"
proof -
  let ?fc = "get_frame_counts t fps"
  have le: "phase_count FadeOut (fst (export_word t ?fc bl n w p))
      \<le> (if gap t \<ge> 0 then nat (fade_out_f ?fc) else 0)"
    by (rule export_word_fade_out_le)
  with assms(2) have g: "gap t \<ge> 0" and f: "0 < fade_out_f ?fc"
    by (auto split: if_splits)
  from f have "0 < py_int (fl (fl (fade_out t) * of_int fps))"
    by (simp add: get_frame_counts_def Let_def)
  then have one: "1 \<le> fl (fl (fade_out t) * of_int fps)" by (simp add: py_int_pos_iff)
  have "0 < fade_out t" using assms(1) one by (rule float_frames_pos)
  with g show ?thesis by simp
qed

lemma export_word_fade_out_unlimited_iff:
  "0 < phase_count FadeOut (fst (export_word t (get_frame_counts t fps) None n w p))
     \<longleftrightarrow> (1 \<le> fl (fl (fade_out t) * of_int fps) \<and> gap t \<ge> 0)"
proof -
  have "fade_out_f (get_frame_counts t fps) = py_int (fl (fl (fade_out t) * of_int fps))"
    by (simp add: get_frame_counts_def Let_def)
  then show ?thesis
    using py_int_pos_iff [of "fl (fl (fade_out t) * of_int fps)"]
    by (simp add: export_word_unlimited_counts)
qed

text \<open>
  C3, as the code has it. For every timing and a frame rate that is not negative:
  the live loop plays a fade-out for a word if and only if the fade-out duration is
  above 0 and the gap is not negative, and the fade-out then posts the word at the 21
  opacities 1, 19/20, ..., 0. The exporter writes fade-out frames for a word only if the
  fade-out duration is above 0 and the gap is not negative; with no bar budget it writes
  them if and only if the gap is not negative and the fade-out lasts at least one whole
  frame, the float product \<open>fade_out * fps\<close> of line 1022 being at least 1. Whenever
  the gap is negative neither path emits a fade-out.
\<close>

theorem fade_out_emitted:
  assumes "0 \<le> fps"
  shows "((\<exists>seg \<in> set (live_word t w p). phase_of seg = FadeOut)
            \<longleftrightarrow> (fade_out t > 0 \<and> gap t \<ge> 0))
     \<and> (\<forall>seg \<in> set (live_word t w p). phase_of seg = FadeOut \<longrightarrow>
            calls seg = map (\<lambda>i. Display_word w (1 - of_int i / 20) None 0) (py_range 21))
     \<and> (0 < phase_count FadeOut (fst (export_word t (get_frame_counts t fps) bl n w p))
            \<longrightarrow> fade_out t > 0 \<and> gap t \<ge> 0)
     \<and> (0 < phase_count FadeOut (fst (export_word t (get_frame_counts t fps) None n w p))
            \<longleftrightarrow> (1 \<le> fl (fl (fade_out t) * of_int fps) \<and> gap t \<ge> 0))
     \<and> (gap t < 0 \<longrightarrow>
            phase_count FadeOut (fst (export_word t (get_frame_counts t fps) bl n w p)) = 0)"
proof -
  have a: "(\<exists>seg \<in> set (live_word t w p). phase_of seg = FadeOut)
            \<longleftrightarrow> (fade_out t > 0 \<and> gap t \<ge> 0)"
    by (rule live_word_fade_out_iff)
  have b: "\<forall>seg \<in> set (live_word t w p). phase_of seg = FadeOut \<longrightarrow>
            calls seg = map (\<lambda>i. Display_word w (1 - of_int i / 20) None 0) (py_range 21)"
    using live_word_fade_out_calls by blast
  have c: "0 < phase_count FadeOut (fst (export_word t (get_frame_counts t fps) bl n w p))
            \<longrightarrow> fade_out t > 0 \<and> gap t \<ge> 0"
    using export_word_fade_out_only_if [OF assms] by blast
  have d: "0 < phase_count FadeOut (fst (export_word t (get_frame_counts t fps) None n w p))
            \<longleftrightarrow> (1 \<le> fl (fl (fade_out t) * of_int fps) \<and> gap t \<ge> 0)"
    by (rule export_word_fade_out_unlimited_iff)
  have e: "gap t < 0 \<longrightarrow>
            phase_count FadeOut (fst (export_word t (get_frame_counts t fps) bl n w p)) = 0"
    using export_word_fade_out_le [of t "get_frame_counts t fps" bl n w p] by auto
  from a b c d e show ?thesis by blast
qed

theorem fade_out_emitted_witness:
  "(\<exists>seg \<in> set (live_word \<lparr> word_dur = 1 / 2, fade_in = 1 / 8, fade_out = 1 / 8, gap = 0 \<rparr> ''la'' None).
       phase_of seg = FadeOut)
   \<and> 0 < phase_count FadeOut (fst (export_word
       \<lparr> word_dur = 1 / 2, fade_in = 1 / 8, fade_out = 1 / 8, gap = 0 \<rparr>
       (get_frame_counts \<lparr> word_dur = 1 / 2, fade_in = 1 / 8, fade_out = 1 / 8, gap = 0 \<rparr> 30)
       None 0 ''la'' None))
   \<and> phase_count FadeOut (fst (export_word
       \<lparr> word_dur = 1 / 2, fade_in = 1 / 8, fade_out = 1 / 8, gap = - (1 / 8) \<rparr>
       (get_frame_counts \<lparr> word_dur = 1 / 2, fade_in = 1 / 8, fade_out = 1 / 8, gap = - (1 / 8) \<rparr> 30)
       (Some 60) 0 ''la'' None)) = 0"
  using fade_out_emitted [of 30 "\<lparr> word_dur = 1 / 2, fade_in = 1 / 8, fade_out = 1 / 8, gap = 0 \<rparr>"
      "''la''" None None 0]
    fade_out_emitted [of 30 "\<lparr> word_dur = 1 / 2, fade_in = 1 / 8, fade_out = 1 / 8, gap = - (1 / 8) \<rparr>"
      "''la''" None "Some 60" 0]
  by (simp add: fl_eval)

text \<open>
  C3 as stated fails in the exporter for a fade-out shorter than a frame: at 240 bpm a
  fade-out of a thirty-second note lasts 1/32 s, which is 0.9375 frames at 30 frames a
  second, in floats exactly. The duration is above 0 and the gap is 0, the live loop plays the fade-out,
  and the exporter writes no fade-out frame.
\<close>

theorem fade_out_short_counterexample:
  "get_timing ((init_settings [''la'']) \<lparr> bpm := 240, fade_out_note := ''1/32'' \<rparr>)
     = Inr \<lparr> word_dur = 1 / 4, fade_in = 1 / 16, fade_out = 1 / 32, gap = 0 \<rparr>
   \<and> phase_count FadeOut (fst (export_word
       \<lparr> word_dur = 1 / 4, fade_in = 1 / 16, fade_out = 1 / 32, gap = 0 \<rparr>
       (get_frame_counts \<lparr> word_dur = 1 / 4, fade_in = 1 / 16, fade_out = 1 / 32, gap = 0 \<rparr> 30)
       None 0 ''la'' None)) = 0
   \<and> (\<exists>seg \<in> set (live_word \<lparr> word_dur = 1 / 4, fade_in = 1 / 16, fade_out = 1 / 32, gap = 0 \<rparr> ''la'' None).
       phase_of seg = FadeOut)"
proof -
  have "get_timing ((init_settings [''la'']) \<lparr> bpm := 240, fade_out_note := ''1/32'' \<rparr>)
     = Inr \<lparr> word_dur = 1 / 4, fade_in = 1 / 16, fade_out = 1 / 32, gap = 0 \<rparr>"
    by (simp add: get_timing_def note_to_seconds_def dict_get_note_values init_settings_def)
  moreover have "phase_count FadeOut (fst (export_word
       \<lparr> word_dur = 1 / 4, fade_in = 1 / 16, fade_out = 1 / 32, gap = 0 \<rparr>
       (get_frame_counts \<lparr> word_dur = 1 / 4, fade_in = 1 / 16, fade_out = 1 / 32, gap = 0 \<rparr> 30)
       None 0 ''la'' None)) = 0"
    by (simp add: export_word_unlimited_counts get_frame_counts_def py_int_def fl_eval)
  moreover have "\<exists>seg \<in> set (live_word \<lparr> word_dur = 1 / 4, fade_in = 1 / 16, fade_out = 1 / 32, gap = 0 \<rparr> ''la'' None).
       phase_of seg = FadeOut"
    by (simp add: live_word_fade_out_iff)
  ultimately show ?thesis by blast
qed

lemma fade_in_frames_props:
  assumes "f \<in> set (fade_in_frames t fc w p)"
  shows "f_phase f = FadeIn" and "f_word f = w" and "0 \<le> f_op f" and "f_op f < 1"
    and "f_prev_word f = p"
    and "f_prev_op f = (if gap t < 0 \<and> truthy p then 1 - f_op f else 0)"
proof -
  from assms obtain i where i: "i < nat (fade_in_f fc)"
    and f: "f = \<lparr> f_phase = FadeIn, f_word = w,
                f_op = (if fade_in_f fc > 0 then of_int (int i) / of_int (fade_in_f fc) else 1),
                f_prev_word = p,
                f_prev_op = (if gap t < 0 \<and> truthy p
                   then 1 - (if fade_in_f fc > 0 then of_int (int i) / of_int (fade_in_f fc) else 1)
                   else 0) \<rparr>"
    by (auto simp: fade_in_frames_def py_range_def Let_def)
  from i have pos: "0 < fade_in_f fc" and lt: "int i < fade_in_f fc" by simp_all
  show "f_phase f = FadeIn" "f_word f = w" "f_prev_word f = p"
    by (simp_all add: f)
  show "0 \<le> f_op f" using pos by (simp add: f)
  show "f_op f < 1" using pos lt by (simp add: f)
  show "f_prev_op f = (if gap t < 0 \<and> truthy p then 1 - f_op f else 0)"
    by (simp add: f)
qed

lemma other_frames_props:
  assumes "f \<in> set (main_frames fc w) \<union> set (fade_out_frames fc w) \<union> set (gap_frames fc)"
  shows "f_phase f \<noteq> FadeIn" and "f_prev_word f = None" and "f_prev_op f = 0"
  using assms by (auto simp: main_frames_def fade_out_frames_def gap_frames_def)

lemma export_word_frame_cases:
  assumes "f \<in> set (fst (export_word t fc bl n w p))"
  shows "f \<in> set (fade_in_frames t fc w p)
       \<or> f \<in> set (main_frames fc w) \<union> set (fade_out_frames fc w) \<union> set (gap_frames fc)"
proof -
  obtain k1 k2 k3 k4 where E: "fst (export_word t fc bl n w p) =
      take k1 (fade_in_frames t fc w p) @ take k2 (main_frames fc w)
        @ (if gap t \<ge> 0 then take k3 (fade_out_frames fc w) else [])
        @ (if gap t > 0 then take k4 (gap_frames fc) else [])"
    using export_word_parts by blast
  from assms show ?thesis
    unfolding E by (auto split: if_splits dest: in_set_takeD)
qed

lemma live_fade_in_calls:
  assumes "seg \<in> set (live_word t w p)" and "phase_of seg = FadeIn" and "c \<in> set (calls seg)"
  shows "\<exists>op. 0 \<le> op \<and> op \<le> 1
           \<and> c = (if gap t < 0 \<and> truthy p then Display_word w op p (1 - op)
                  else Display_word w op None 0)"
proof -
  from assms(1,2) have seg: "seg \<in> set (live_fade_in t w p)"
    by (auto simp: live_word_def live_main_def live_fade_out_def live_gap_def Let_def
        split: if_splits)
  with assms(3) obtain i where i: "i < 21"
    and c: "c = (if gap t < 0 \<and> truthy p then Display_word w (of_int (int i) / 20) p (1 - of_int (int i) / 20)
                 else Display_word w (of_int (int i) / 20) None 0)"
    by (auto simp: live_fade_in_def Let_def py_range_def fade_steps_def split: if_splits)
  have "(0::rat) \<le> of_int (int i) / 20" by simp
  moreover have "of_int (int i) / 20 \<le> (1::rat)" using i by simp
  ultimately show ?thesis using c by blast
qed

lemma live_other_calls:
  assumes "seg \<in> set (live_word t w p)" and "phase_of seg \<noteq> FadeIn" and "c \<in> set (calls seg)"
  shows "c = Clear_display \<or> c = Update_progress \<or> (\<exists>op. c = Display_word w op None 0)"
  using assms
  by (auto simp: live_word_def live_fade_in_def live_main_def live_fade_out_def live_gap_def
      Let_def split: if_splits)

text \<open>
  C9. In the live loop and in the exporter alike, for every word, every sampled step of
  a fade-in that cross-dissolves (the gap is negative and there is a previous word)
  names the previous word and gives it an opacity that adds up to exactly 1 with the
  opacity of the incoming word. Every other step of either path (a fade-in with a gap
  that is not negative or with no previous word, a hold, a fade-out, a gap) shows no
  previous word: the live call passes none, the exporter's frame gives it opacity 0.
\<close>

theorem cross_dissolve_opacities:
  "(\<forall>seg \<in> set (live_word t w p). \<forall>c \<in> set (calls seg).
       if phase_of seg = FadeIn \<and> gap t < 0 \<and> truthy p
       then \<exists>op pop. c = Display_word w op p pop \<and> op + pop = 1
       else c = Clear_display \<or> c = Update_progress \<or> (\<exists>op. c = Display_word w op None 0))
   \<and> (\<forall>f \<in> set (fst (export_word t fc bl n w p)).
       if f_phase f = FadeIn \<and> gap t < 0 \<and> truthy p
       then f_prev_word f = p \<and> 0 < f_prev_op f \<and> f_op f + f_prev_op f = 1
       else f_prev_op f = 0)"
proof -
  have live: "if phase_of seg = FadeIn \<and> gap t < 0 \<and> truthy p
       then \<exists>op pop. c = Display_word w op p pop \<and> op + pop = 1
       else c = Clear_display \<or> c = Update_progress \<or> (\<exists>op. c = Display_word w op None 0)"
    if seg: "seg \<in> set (live_word t w p)" and c: "c \<in> set (calls seg)" for seg c
  proof (cases "phase_of seg = FadeIn")
    case True
    from live_fade_in_calls [OF seg True c] obtain op where
      "c = (if gap t < 0 \<and> truthy p then Display_word w op p (1 - op)
            else Display_word w op None 0)" by blast
    moreover have "op + (1 - op) = 1" by simp
    ultimately show ?thesis using True by auto
  next
    case False
    with live_other_calls [OF seg False c] show ?thesis by simp
  qed
  have export: "if f_phase f = FadeIn \<and> gap t < 0 \<and> truthy p
       then f_prev_word f = p \<and> 0 < f_prev_op f \<and> f_op f + f_prev_op f = 1
       else f_prev_op f = 0"
    if f: "f \<in> set (fst (export_word t fc bl n w p))" for f
    using export_word_frame_cases [OF f]
  proof
    assume a: "f \<in> set (fade_in_frames t fc w p)"
    from fade_in_frames_props [OF a] show ?thesis by simp
  next
    assume b: "f \<in> set (main_frames fc w) \<union> set (fade_out_frames fc w) \<union> set (gap_frames fc)"
    from other_frames_props [OF b] show ?thesis by simp
  qed
  from live export show ?thesis by blast
qed

theorem cross_dissolve_opacities_witness:
  "Display_word ''la'' (1 / 4) (Some ''do'') (3 / 4)
     \<in> set (concat (map calls (live_word \<lparr> word_dur = 1 / 2, fade_in = 1 / 8, fade_out = 0, gap = - (1 / 8) \<rparr>
                      ''la'' (Some ''do''))))
   \<and> map (\<lambda>f. (f_op f, f_prev_word f, f_prev_op f))
       (fst (export_word \<lparr> word_dur = 1 / 2, fade_in = 1 / 8, fade_out = 0, gap = - (1 / 8) \<rparr>
          \<lparr> fade_in_f = 2, fade_out_f = 0, word_f = 4, gap_f = 0, main_f = 2 \<rparr>
          None 0 ''la'' (Some ''do'')))
     = [(0, Some ''do'', 1), (1 / 2, Some ''do'', 1 / 2), (1, None, 0), (1, None, 0)]"
  using cross_dissolve_opacities [of "\<lparr> word_dur = 1 / 2, fade_in = 1 / 8, fade_out = 0, gap = - (1 / 8) \<rparr>"
      "''la''" "Some ''do''" "\<lparr> fade_in_f = 2, fade_out_f = 0, word_f = 4, gap_f = 0, main_f = 2 \<rparr>" None 0]
  by (simp add: live_word_def live_fade_in_def live_main_def live_fade_out_def live_gap_def
      export_word_unlimited fade_in_frames_def main_frames_def py_range_def fade_steps_def
      truthy_def Let_def upt_rec [of 0] numeral_eq_Suc)

section \<open>Looping in the exporter\<close>

lemma write_frames_le: "snd (write_frames (Some b) n fs) \<le> max n b"
  by (auto simp: write_frames_take)

lemma export_word_snd:
  "snd (export_word t fc bl n w p) = n + int (length (fst (export_word t fc bl n w p)))"
proof -
  obtain a n1 where A: "write_frames bl n (fade_in_frames t fc w p) = (a, n1)"
    by (cases "write_frames bl n (fade_in_frames t fc w p)")
  obtain b n2 where B: "write_frames bl n1 (main_frames fc w) = (b, n2)"
    by (cases "write_frames bl n1 (main_frames fc w)")
  obtain c n3 where C: "(if gap t \<ge> 0 then write_frames bl n2 (fade_out_frames fc w)
            else ([], n2)) = (c, n3)"
    by (cases "if gap t \<ge> 0 then write_frames bl n2 (fade_out_frames fc w) else ([], n2)")
  obtain d n4 where D: "(if gap t > 0 then write_frames bl n3 (gap_frames fc) else ([], n3)) = (d, n4)"
    by (cases "if gap t > 0 then write_frames bl n3 (gap_frames fc) else ([], n3)")
  have 1: "n1 = n + int (length a)"
    using write_frames_snd [of bl n "fade_in_frames t fc w p"] A by simp
  have 2: "n2 = n1 + int (length b)"
    using write_frames_snd [of bl n1 "main_frames fc w"] B by simp
  have 3: "n3 = n2 + int (length c)"
    using write_frames_snd [of bl n2 "fade_out_frames fc w"] C by (auto split: if_splits)
  have 4: "n4 = n3 + int (length d)"
    using write_frames_snd [of bl n3 "gap_frames fc"] D by (auto split: if_splits)
  have "export_word t fc bl n w p = (a @ b @ c @ d, n4)"
    using A B C D by (simp add: export_word_def)
  then show ?thesis using 1 2 3 4 by simp
qed

lemma export_word_le: "snd (export_word t fc (Some b) n w p) \<le> max n b"
proof -
  obtain a n1 where A: "write_frames (Some b) n (fade_in_frames t fc w p) = (a, n1)"
    by (cases "write_frames (Some b) n (fade_in_frames t fc w p)")
  obtain b' n2 where B: "write_frames (Some b) n1 (main_frames fc w) = (b', n2)"
    by (cases "write_frames (Some b) n1 (main_frames fc w)")
  obtain c n3 where C: "(if gap t \<ge> 0 then write_frames (Some b) n2 (fade_out_frames fc w)
            else ([], n2)) = (c, n3)"
    by (cases "if gap t \<ge> 0 then write_frames (Some b) n2 (fade_out_frames fc w) else ([], n2)")
  obtain d n4 where D: "(if gap t > 0 then write_frames (Some b) n3 (gap_frames fc) else ([], n3)) = (d, n4)"
    by (cases "if gap t > 0 then write_frames (Some b) n3 (gap_frames fc) else ([], n3)")
  have 1: "n1 \<le> max n b"
    using write_frames_le [of b n "fade_in_frames t fc w p"] A by simp
  have 2: "n2 \<le> max n1 b"
    using write_frames_le [of b n1 "main_frames fc w"] B by simp
  have 3: "n3 \<le> max n2 b"
    using write_frames_le [of b n2 "fade_out_frames fc w"] C by (auto split: if_splits)
  have 4: "n4 \<le> max n3 b"
    using write_frames_le [of b n3 "gap_frames fc"] D by (auto split: if_splits)
  have "export_word t fc (Some b) n w p = (a @ b' @ c @ d, n4)"
    using A B C D by (simp add: export_word_def)
  then show ?thesis using 1 2 3 4 by simp
qed

lemma export_words_budget:
  "int (length (concat (export_words t fc (Some b) n p ws))) \<le> max 0 (b - n)"
proof (induction ws arbitrary: n p)
  case Nil
  then show ?case by simp
next
  case (Cons w ws)
  show ?case
  proof (cases "n \<ge> b")
    case True
    then show ?thesis by (simp add: budget_spent_def)
  next
    case False
    obtain fr n' where E: "export_word t fc (Some b) n w p = (fr, n')"
      by (cases "export_word t fc (Some b) n w p")
    have n': "n' = n + int (length fr)"
      using export_word_snd [of t fc "Some b" n w p] E by simp
    have le: "n' \<le> b"
      using export_word_le [of t fc b n w p] E False by simp
    have "int (length (concat (export_words t fc (Some b) n' (Some w) ws))) \<le> max 0 (b - n')"
      by (rule Cons.IH)
    with n' le False E show ?thesis
      by (simp add: budget_spent_def)
  qed
qed

lemma export_word_unlimited_length:
  "length (fst (export_word t fc None n w p))
     = nat (fade_in_f fc) + nat (main_f fc)
       + (if gap t \<ge> 0 then nat (fade_out_f fc) else 0)
       + (if gap t > 0 then nat (gap_f fc) else 0)"
  by (simp add: export_word_unlimited fade_in_frames_def main_frames_def fade_out_frames_def
      gap_frames_def py_range_def)

lemma export_words_unlimited_lengths:
  "map length (export_words t fc None n p ws)
     = replicate (length ws)
         (nat (fade_in_f fc) + nat (main_f fc)
           + (if gap t \<ge> 0 then nat (fade_out_f fc) else 0)
           + (if gap t > 0 then nat (gap_f fc) else 0))"
proof (induction ws arbitrary: n p)
  case Nil
  then show ?case by simp
next
  case (Cons w ws)
  obtain fr n' where E: "export_word t fc None n w p = (fr, n')"
    by (cases "export_word t fc None n w p")
  have "length fr = nat (fade_in_f fc) + nat (main_f fc)
           + (if gap t \<ge> 0 then nat (fade_out_f fc) else 0)
           + (if gap t > 0 then nat (gap_f fc) else 0)"
    using export_word_unlimited_length [of t fc n w p] E by simp
  with E Cons.IH [of n' "Some w"] show ?case
    by (simp add: budget_spent_def)
qed

text \<open>
  A budget cuts the frames of an iteration to a prefix: the four frame loops of a word
  and the word loop around them are one loop over the frames in order that stops at
  the first frame over the budget.
\<close>

lemma write_frames_spent: "budget_spent bl n \<Longrightarrow> write_frames bl n fs = ([], n)"
  by (cases fs) simp_all

lemma write_frames_append:
  "write_frames bl n (xs @ ys) =
     (case write_frames bl n xs of (a, n1) \<Rightarrow>
        (case write_frames bl n1 ys of (c, n2) \<Rightarrow> (a @ c, n2)))"
proof (induction xs arbitrary: n)
  case Nil
  then show ?case by (simp split: prod.splits)
next
  case (Cons x xs)
  show ?case
  proof (cases "budget_spent bl n")
    case True
    then show ?thesis by (simp add: write_frames_spent)
  next
    case False
    then show ?thesis using Cons [of "n + 1"] by (simp split: prod.splits)
  qed
qed

lemma export_word_one_loop:
  "export_word t fc bl n w p = write_frames bl n (fst (export_word t fc None 0 w p))"
proof -
  let ?A = "fade_in_frames t fc w p" and ?B = "main_frames fc w"
  let ?C = "if gap t \<ge> 0 then fade_out_frames fc w else []"
  let ?D = "if gap t > 0 then gap_frames fc else []"
  have c: "(if gap t \<ge> 0 then write_frames bl k (fade_out_frames fc w) else ([], k))
      = write_frames bl k ?C" for k by simp
  have d: "(if gap t > 0 then write_frames bl k (gap_frames fc) else ([], k))
      = write_frames bl k ?D" for k by simp
  have u: "fst (export_word t fc None 0 w p) = ?A @ ?B @ ?C @ ?D"
    by (simp only: export_word_unlimited fst_conv)
  have "export_word t fc bl n w p =
     (case write_frames bl n ?A of (a, n1) \<Rightarrow>
     (case write_frames bl n1 ?B of (b, n2) \<Rightarrow>
     (case write_frames bl n2 ?C of (c, n3) \<Rightarrow>
     (case write_frames bl n3 ?D of (d, n4) \<Rightarrow> (a @ b @ c @ d, n4)))))"
    unfolding export_word_def c d ..
  also have "\<dots> = write_frames bl n (?A @ ?B @ ?C @ ?D)"
    unfolding write_frames_append [of bl _ ?A] write_frames_append [of bl _ ?B]
      write_frames_append [of bl _ ?C]
    by (simp split: prod.splits)
  finally show ?thesis unfolding u .
qed

lemma export_words_unlimited_start:
  "export_words t fc None n p ws = export_words t fc None m p ws"
proof (induction ws arbitrary: n m p)
  case Nil
  then show ?case by simp
next
  case (Cons w ws)
  obtain fr n' where E: "export_word t fc None n w p = (fr, n')"
    by (cases "export_word t fc None n w p")
  obtain fr2 m' where E2: "export_word t fc None m w p = (fr2, m')"
    by (cases "export_word t fc None m w p")
  have fr: "fr2 = fr" using E E2 by (simp add: export_word_unlimited)
  have L: "export_words t fc None n p (w # ws) = fr # export_words t fc None n' (Some w) ws"
    using E by (simp add: budget_spent_def)
  have R: "export_words t fc None m p (w # ws) = fr # export_words t fc None m' (Some w) ws"
    using E2 fr by (simp add: budget_spent_def)
  have "export_words t fc None n' (Some w) ws = export_words t fc None m' (Some w) ws"
    by (rule Cons)
  then show ?case by (simp only: L R)
qed

lemma export_words_one_loop:
  "concat (export_words t fc bl n p ws)
     = fst (write_frames bl n (concat (export_words t fc None 0 p ws)))"
proof (induction ws arbitrary: n p)
  case Nil
  then show ?case by simp
next
  case (Cons w ws)
  show ?case
  proof (cases "budget_spent bl n")
    case True
    then show ?thesis by (simp add: write_frames_spent)
  next
    case False
    let ?R = "concat (export_words t fc None 0 (Some w) ws)"
    obtain F m' where E0: "export_word t fc None 0 w p = (F, m')"
      by (cases "export_word t fc None 0 w p")
    obtain fr n' where E: "write_frames bl n F = (fr, n')"
      by (cases "write_frames bl n F")
    have E': "export_word t fc bl n w p = (fr, n')"
      using export_word_one_loop [of t fc bl n w p] by (simp only: E0 fst_conv E)
    have "export_words t fc None 0 p (w # ws) = F # export_words t fc None m' (Some w) ws"
      using E0 by (simp add: budget_spent_def)
    also have "\<dots> = F # export_words t fc None 0 (Some w) ws"
      using export_words_unlimited_start [of t fc m' "Some w" ws 0] by (simp only:)
    finally have U: "concat (export_words t fc None 0 p (w # ws)) = F @ ?R" by simp
    have "concat (export_words t fc bl n p (w # ws))
        = fr @ concat (export_words t fc bl n' (Some w) ws)"
      using False E' by simp
    also have "\<dots> = fr @ fst (write_frames bl n' ?R)"
      by (simp only: Cons)
    also have "\<dots> = fst (write_frames bl n (F @ ?R))"
      unfolding write_frames_append E by (simp split: prod.splits)
    finally show ?thesis unfolding U .
  qed
qed

lemma export_pass_take:
  "concat (export_pass s t (Some b)) = take (nat b) (concat (export_pass s t None))"
  unfolding export_pass_def
    export_words_one_loop [of t "get_frame_counts t (export_fps s)" "Some b"]
  by (simp add: write_frames_take)

lemma get_bar_limit_total:
  assumes "bpm s \<noteq> 0"
  shows "get_bar_limit s =
           Inr (if loop_enabled s \<and> loop_mode s = ''bars''
                then Some (py_int (fl (fl (of_int (loop_bars s)
                       * fl (of_int (time_signature_num s) * 60 / of_int (bpm s)))
                       * of_int (export_fps s))))
                else None)"
  using assms by (simp add: get_bar_limit_def get_bar_seconds_def)

text \<open>
  The rounding of the floats shows in the budget. At 100 bpm in 4/4 a bar lasts 2.4 s
  and 3 bars at 30 frames a second are 216 frames exactly; the float product is a
  little below 216, and the budget is 215 frames.
\<close>

lemma get_bar_limit_float_product:
  "get_bar_limit ((init_settings [''la''])
       \<lparr> loop_enabled := True, loop_mode := ''bars'', loop_bars := 3, bpm := 100 \<rparr>)
     = Inr (Some 215)"
  by (simp add: get_bar_limit_def get_bar_seconds_def init_settings_def py_int_def fl_eval)

text \<open>
  At a frame rate of 0 the thread ends in the error of line 1112.
\<close>

lemma export_thread_fps_zero:
  assumes "bpm s \<noteq> 0" and "export_fps s = 0"
  shows "export_thread s = Inl ZeroDivisionError"
proof -
  obtain t where t: "get_timing s = Inr t"
    using get_timing_total [OF assms(1)] by blast
  show ?thesis
    using t assms(2) get_bar_limit_total [OF assms(1)] by (simp add: export_thread_def)
qed

text \<open>
  C10. With looping enabled and the infinite flag set (a tempo and a frame rate other
  than 0, so that nothing raises), the exporter runs its loop once: the export is the
  frames of a single iteration, a finite list. With no bar budget an iteration is one
  pass over the words from the start word, each with its full number of frames. When
  not looping by bars there is no budget, and the export is that pass. When looping by
  bars the budget is \<open>int(loop_bars * bar_seconds * fps)\<close> frames, and the export is
  exactly the first that many frames of the pass, all of it when it is shorter.
\<close>

theorem export_infinite_one_pass:
  assumes "loop_enabled s" and "loop_infinite s" and "bpm s \<noteq> 0" and "export_fps s \<noteq> 0"
  shows "export_loops s = 1
     \<and> (\<exists>t bl. get_timing s = Inr t \<and> get_bar_limit s = Inr bl
          \<and> export_thread s = Inr (concat (export_pass s t bl))
          \<and> map length (export_pass s t None)
               = replicate (length (py_slice_from (words s) (start_word s - 1)))
                   (let fc = get_frame_counts t (export_fps s)
                    in nat (fade_in_f fc) + nat (main_f fc)
                       + (if gap t \<ge> 0 then nat (fade_out_f fc) else 0)
                       + (if gap t > 0 then nat (gap_f fc) else 0))
          \<and> (case bl of
                None \<Rightarrow> loop_mode s \<noteq> ''bars''
              | Some b \<Rightarrow>
                  loop_mode s = ''bars''
                  \<and> b = py_int (fl (fl (of_int (loop_bars s)
                           * fl (of_int (time_signature_num s) * 60 / of_int (bpm s)))
                           * of_int (export_fps s)))
                  \<and> concat (export_pass s t bl)
                      = take (nat b) (concat (export_pass s t None))))"
proof -
  have loops: "export_loops s = 1"
    using assms(1,2) by (simp add: export_loops_def)
  obtain t where t: "get_timing s = Inr t"
    using get_timing_total [OF assms(3)] by blast
  obtain bl where bl: "get_bar_limit s = Inr bl"
    and bl_eq: "bl = (if loop_enabled s \<and> loop_mode s = ''bars''
                then Some (py_int (fl (fl (of_int (loop_bars s)
                       * fl (of_int (time_signature_num s) * 60 / of_int (bpm s)))
                       * of_int (export_fps s))))
                else None)"
    using get_bar_limit_total [OF assms(3)] by simp
  have thread: "export_thread s = Inr (concat (export_pass s t bl))"
    using t bl loops assms(4) by (simp add: export_thread_def py_range_def)
  have lens: "map length (export_pass s t None)
               = replicate (length (py_slice_from (words s) (start_word s - 1)))
                   (let fc = get_frame_counts t (export_fps s)
                    in nat (fade_in_f fc) + nat (main_f fc)
                       + (if gap t \<ge> 0 then nat (fade_out_f fc) else 0)
                       + (if gap t > 0 then nat (gap_f fc) else 0))"
    by (simp add: export_pass_def export_words_unlimited_lengths Let_def)
  have shape: "case bl of
                None \<Rightarrow> loop_mode s \<noteq> ''bars''
              | Some b \<Rightarrow>
                  loop_mode s = ''bars''
                  \<and> b = py_int (fl (fl (of_int (loop_bars s)
                           * fl (of_int (time_signature_num s) * 60 / of_int (bpm s)))
                           * of_int (export_fps s)))
                  \<and> concat (export_pass s t bl)
                      = take (nat b) (concat (export_pass s t None))"
  proof (cases bl)
    case None
    with bl_eq assms(1) have "loop_mode s \<noteq> ''bars''" by (simp split: if_splits)
    then show ?thesis using None by simp
  next
    case (Some b)
    with bl_eq have "loop_mode s = ''bars''"
      and "b = py_int (fl (fl (of_int (loop_bars s)
                           * fl (of_int (time_signature_num s) * 60 / of_int (bpm s)))
                           * of_int (export_fps s)))"
      by (simp_all split: if_splits)
    then show ?thesis using Some by (simp add: export_pass_take)
  qed
  from loops t bl thread lens shape show ?thesis by blast
qed

theorem export_infinite_one_pass_witness:
  "export_loops ((init_settings [''la'', ''do'', ''re'', ''mi'', ''fa''])
       \<lparr> loop_enabled := True, loop_infinite := True, loop_mode := ''bars'', loop_bars := 1 \<rparr>) = 1
   \<and> (\<exists>frames. export_thread ((init_settings [''la'', ''do'', ''re'', ''mi'', ''fa''])
         \<lparr> loop_enabled := True, loop_infinite := True, loop_mode := ''bars'', loop_bars := 1 \<rparr>)
           = Inr frames
         \<and> length frames = 60)"
proof -
  let ?s = "(init_settings [''la'', ''do'', ''re'', ''mi'', ''fa''])
       \<lparr> loop_enabled := True, loop_infinite := True, loop_mode := ''bars'', loop_bars := 1 \<rparr>"
  let ?t = "\<lparr> word_dur = 1 / 2, fade_in = 1 / 8, fade_out = 1 / 8, gap = 0 \<rparr>"
  have h: "loop_enabled ?s" "loop_infinite ?s" "bpm ?s \<noteq> 0" "export_fps ?s \<noteq> 0"
    by (simp_all add: init_settings_def)
  have t: "get_timing ?s = Inr ?t"
    by (simp add: get_timing_def note_to_seconds_def dict_get_note_values init_settings_def)
  have bl: "get_bar_limit ?s = Inr (Some 60)"
    by (simp add: get_bar_limit_def get_bar_seconds_def init_settings_def py_int_def fl_eval)
  have ws: "py_slice_from (words ?s) (start_word ?s - 1) = [''la'', ''do'', ''re'', ''mi'', ''fa'']"
    by (simp add: py_slice_from_def init_settings_def)
  have fps: "export_fps ?s = 30" by (simp add: init_settings_def)
  have per_word: "(let fc = get_frame_counts ?t 30
                   in nat (fade_in_f fc) + nat (main_f fc)
                      + (if gap ?t \<ge> 0 then nat (fade_out_f fc) else 0)
                      + (if gap ?t > 0 then nat (gap_f fc) else 0)) = 15"
    by (simp add: get_frame_counts_def py_int_def fl_eval)
  from export_infinite_one_pass [OF h] t bl
  have one: "export_loops ?s = 1"
    and thread: "export_thread ?s = Inr (concat (export_pass ?s ?t (Some 60)))"
    and lens: "map length (export_pass ?s ?t None)
        = replicate (length (py_slice_from (words ?s) (start_word ?s - 1)))
            (let fc = get_frame_counts ?t (export_fps ?s)
             in nat (fade_in_f fc) + nat (main_f fc)
                + (if gap ?t \<ge> 0 then nat (fade_out_f fc) else 0)
                + (if gap ?t > 0 then nat (gap_f fc) else 0))"
    and cut: "concat (export_pass ?s ?t (Some 60))
        = take (nat 60) (concat (export_pass ?s ?t None))"
    by auto
  have "length (concat (export_pass ?s ?t None)) = sum_list (map length (export_pass ?s ?t None))"
    by (simp add: length_concat)
  also have "\<dots> = 75"
    unfolding lens ws fps per_word by simp
  finally have "length (concat (export_pass ?s ?t None)) = 75" .
  then have "length (concat (export_pass ?s ?t (Some 60))) = 60"
    unfolding cut by simp
  with one thread show ?thesis by simp
qed

section \<open>Properties of the metronome\<close>








section \<open>Properties of the duration display\<close>

lemma total_duration_live_word:
  "total_duration (live_word t w p)
     = (if fade_in t > 0 then 21 * (fade_in t / 20) else 0)
       + max (1 / 100) (word_dur t - fade_in t - fade_out t)
       + (if fade_out t > 0 \<and> gap t \<ge> 0 then 21 * (fade_out t / 20) else 0)
       + (if gap t > 0 then gap t else 0)"
  by (simp add: total_duration_def live_word_def live_fade_in_def live_main_def
      live_fade_out_def live_gap_def Let_def fade_steps_def)

lemma single_pass_Inr:
  assumes "get_timing s = Inr t"
  shows "single_pass s =
           Inr (max 0 (of_int (int (length (words s)) - (start_word s - 1)) * word_dur t
                        + of_int (int (length (words s)) - (start_word s - 1) - 1) * gap t))"
proof -
  from get_timing_Inr(4) [OF assms] obtain g where
    g: "note_to_seconds s (gap_note s) = Inr g" "gap t = (if gap_negative s then - g else g)"
    by blast
  show ?thesis
    using get_timing_Inr(1) [OF assms] g by (simp add: single_pass_def Let_def)
qed

lemma sum_list_const: "sum_list (map (\<lambda>w. c) xs) = of_nat (length xs) * (c::rat)"
  by (induction xs) (simp_all add: algebra_simps)

text \<open>
  C1, as the code has it. For a tempo above 0, a word list of length \<open>N\<close> and a start
  word \<open>S\<close> in [1, N], the duration display computes for a single pass
  \<open>max(0, (N-S+1) * wordDuration + (N-S) * gap)\<close> with the signed gap: the gap is
  counted between words only, not after the last. For a gap that is not negative this
  is the sum of \<open>wordDuration\<close> over the words played plus \<open>(N-S) * max(0, gap)\<close>.
  A negative gap is not clamped: it shortens the computed total. Without looping this
  total is the duration the display shows.
\<close>

theorem single_pass_total:
  assumes "0 < bpm s" and "1 \<le> start_word s" and "start_word s \<le> int (length (words s))"
    and "get_timing s = Inr t"
  shows "single_pass s
           = Inr (max 0 (of_int (int (length (words s)) - start_word s + 1) * word_dur t
                          + of_int (int (length (words s)) - start_word s) * gap t))
     \<and> (0 \<le> gap t \<longrightarrow>
          single_pass s
            = Inr (sum_list (map (\<lambda>w. word_dur t) (drop (nat (start_word s - 1)) (words s)))
                   + of_int (int (length (words s)) - start_word s) * max 0 (gap t)))
     \<and> (\<not> loop_enabled s \<longrightarrow>
          update_duration_display s
            = Inr (One_pass
                (max 0 (of_int (int (length (words s)) - start_word s + 1) * word_dur t
                         + of_int (int (length (words s)) - start_word s) * gap t))))"
proof -
  let ?N = "int (length (words s))" and ?S = "start_word s"
  have a: "?N - (?S - 1) = ?N - ?S + 1" and b: "?N - (?S - 1) - 1 = ?N - ?S"
    by simp_all
  have first: "single_pass s
           = Inr (max 0 (of_int (?N - ?S + 1) * word_dur t + of_int (?N - ?S) * gap t))"
    using single_pass_Inr [OF assms(4)] by (simp add: a b)
  have wd: "0 \<le> word_dur t" using get_timing_nonneg(1) [OF assms(1,4)] .
  have len: "of_nat (length (drop (nat (?S - 1)) (words s))) = (of_int (?N - ?S + 1) :: rat)"
  proof -
    have "int (length (drop (nat (?S - 1)) (words s))) = ?N - ?S + 1"
      using assms(2,3) by simp
    then show ?thesis by (metis of_int_of_nat_eq)
  qed
  have second: "single_pass s
            = Inr (sum_list (map (\<lambda>w. word_dur t) (drop (nat (?S - 1)) (words s)))
                   + of_int (?N - ?S) * max 0 (gap t))" if g: "0 \<le> gap t"
  proof -
    have "0 \<le> of_int (?N - ?S + 1) * word_dur t"
      using wd assms(3) by simp
    moreover have "0 \<le> of_int (?N - ?S) * gap t"
      using g assms(3) by simp
    ultimately have "max 0 (of_int (?N - ?S + 1) * word_dur t + of_int (?N - ?S) * gap t)
        = of_int (?N - ?S + 1) * word_dur t + of_int (?N - ?S) * gap t"
      by simp
    moreover have "max 0 (gap t) = gap t" using g by simp
    moreover have "sum_list (map (\<lambda>w. word_dur t) (drop (nat (?S - 1)) (words s)))
        = of_int (?N - ?S + 1) * word_dur t"
      by (simp only: sum_list_const len)
    ultimately show ?thesis
      using first by simp
  qed
  have "words s \<noteq> []" using assms(2,3) by auto
  then have third: "update_duration_display s
      = Inr (One_pass (max 0 (of_int (?N - ?S + 1) * word_dur t + of_int (?N - ?S) * gap t)))"
    if "\<not> loop_enabled s"
    using that first by (simp add: update_duration_display_def)
  from first second third show ?thesis by blast
qed

theorem single_pass_total_witness:
  "single_pass ((init_settings [''la'', ''do'', ''re'']) \<lparr> gap_note := ''1/8'', start_word := 2 \<rparr>)
     = Inr (5 / 4)"
proof -
  let ?s = "(init_settings [''la'', ''do'', ''re'']) \<lparr> gap_note := ''1/8'', start_word := 2 \<rparr>"
  let ?t = "\<lparr> word_dur = 1 / 2, fade_in = 1 / 8, fade_out = 1 / 8, gap = 1 / 4 \<rparr>"
  have h: "0 < bpm ?s" "1 \<le> start_word ?s" "start_word ?s \<le> int (length (words ?s))"
    by (simp_all add: init_settings_def)
  have t: "get_timing ?s = Inr ?t"
    by (simp add: get_timing_def note_to_seconds_def dict_get_note_values init_settings_def)
  have v: "int (length (words ?s)) = 3" "start_word ?s = 2"
    by (simp_all add: init_settings_def)
  from single_pass_total [OF h t] show ?thesis
    unfolding v by simp
qed

text \<open>
  C1 as stated fails for a negative gap. Two words of a quarter note at 120 bpm with a
  gap of minus a sixteenth note: the stated total is 1/2 + 1/2 + 1 * max(0, -1/8) = 1
  second; the duration display computes 7/8; the live loop asks the clock for 61/160
  for each word, 61/80 in all.
\<close>

theorem single_pass_negative_gap_counterexample:
  "get_timing ((init_settings [''la'', ''do'']) \<lparr> gap_note := ''1/16'', gap_negative := True \<rparr>)
     = Inr \<lparr> word_dur = 1 / 2, fade_in = 1 / 8, fade_out = 1 / 8, gap = - (1 / 8) \<rparr>
   \<and> single_pass ((init_settings [''la'', ''do'']) \<lparr> gap_note := ''1/16'', gap_negative := True \<rparr>)
     = Inr (7 / 8)
   \<and> map_sum id (map total_duration)
       (live_pass ((init_settings [''la'', ''do'']) \<lparr> gap_note := ''1/16'', gap_negative := True \<rparr>))
     = Inr [61 / 160, 61 / 160]
   \<and> sum_list (map (\<lambda>w. word_dur \<lparr> word_dur = 1 / 2, fade_in = 1 / 8, fade_out = 1 / 8, gap = - (1 / 8) \<rparr>)
                 [''la'', ''do''])
       + of_int (2 - 1) * max 0 (gap \<lparr> word_dur = 1 / 2, fade_in = 1 / 8, fade_out = 1 / 8, gap = - (1 / 8) \<rparr>)
     = 1"
proof -
  let ?s = "(init_settings [''la'', ''do'']) \<lparr> gap_note := ''1/16'', gap_negative := True \<rparr>"
  let ?t = "\<lparr> word_dur = 1 / 2, fade_in = 1 / 8, fade_out = 1 / 8, gap = - (1 / 8) \<rparr>"
  have t: "get_timing ?s = Inr ?t"
    by (simp add: get_timing_def note_to_seconds_def dict_get_note_values init_settings_def)
  have sp: "single_pass ?s = Inr (7 / 8)"
    using single_pass_Inr [OF t] by (simp add: init_settings_def)
  have bs: "get_bar_seconds ?s = Inr 2"
    by (simp add: get_bar_seconds_def init_settings_def)
  have loop: "live_loop ?t 4 False bd [''la'', ''do''] 0 0 0
      = Inr [live_word ?t ''la'' None, live_word ?t ''do'' (Some ''la'')]" for bd
    by (simp add: live_loop.simps [of _ _ _ _ _ _ 0] live_loop.simps [of _ _ _ _ _ _ 1]
        live_loop.simps [of _ _ _ _ _ _ 2] py_index_def)
  have lp: "live_pass ?s = Inr [live_word ?t ''la'' None, live_word ?t ''do'' (Some ''la'')]"
    unfolding live_pass_def t bs by (simp add: init_settings_def loop)
  have d: "total_duration (live_word ?t w p) = 61 / 160" for w p
    by (simp add: total_duration_live_word)
  show ?thesis
    using t sp lp d by simp
qed

section \<open>Looping by bars\<close>

text \<open>
  Whatever the bar length, every word the live loop starts is played with all of its
  segments: the loop has no check inside a word.
\<close>

lemma live_loop_whole_words:
  assumes "live_loop t ts bars bar_duration ws start_idx idx elapsed = Inr played"
  shows "\<forall>segs \<in> set played. \<exists>w p. segs = live_word t w p"
  using assms
proof (induction t ts bars bar_duration ws start_idx idx elapsed arbitrary: played
    rule: live_loop.induct)
  case (1 t ts bars bar_duration ws start_idx idx elapsed)
  show ?case
  proof (cases "idx < int (length ws) \<and> \<not> (bars \<and> elapsed \<ge> bar_duration)")
    case False
    with "1.prems" have "played = []"
      by (auto simp: live_loop.simps [of t ts bars bar_duration ws start_idx idx elapsed]
          split: if_splits)
    then show ?thesis by simp
  next
    case True
    with "1.prems" obtain word prev_word rest where
      w: "py_index ws idx = Inr word"
      and p: "(if idx > start_idx then map_sum id Some (py_index ws (idx - 1)) else Inr None)
                = Inr prev_word"
      and ts: "ts \<noteq> 0"
      and r: "live_loop t ts bars bar_duration ws start_idx (idx + 1)
                (elapsed + total_duration (live_word t word prev_word)) = Inr rest"
      and pl: "played = live_word t word prev_word # rest"
      by (auto simp: live_loop.simps [of t ts bars bar_duration ws start_idx idx elapsed]
          split: if_splits sum.splits)
    from True have c1: "idx < int (length ws)" and c2: "\<not> (bars \<and> bar_duration \<le> elapsed)"
      by simp_all
    have "\<forall>segs \<in> set rest. \<exists>w p. segs = live_word t w p"
      using "1.IH" [OF c1 c2 w p ts r] .
    with pl show ?thesis by auto
  qed
qed

text \<open>
  C2, at an input where the code parts from it. Looping by one bar of 4/4 at 120 bpm
  gives a budget of 2 seconds, 60 frames at 30 frames a second; a word of note value
  "2" lasts 4 seconds. The exporter stops in the middle of the first word, after
  exactly 60 hold frames, and enters no second word. The live loop tests the budget
  only before a word: it plays the whole 4-second hold of the first word.
\<close>

theorem bars_live_completes_word:
  "get_bar_seconds ((init_settings [''la'', ''do''])
       \<lparr> word_note_value := ''2'', fade_in_note := ''0'', fade_out_note := ''0'',
         loop_enabled := True, loop_mode := ''bars'', loop_bars := 1 \<rparr>) = Inr 2
   \<and> live_pass ((init_settings [''la'', ''do''])
       \<lparr> word_note_value := ''2'', fade_in_note := ''0'', fade_out_note := ''0'',
         loop_enabled := True, loop_mode := ''bars'', loop_bars := 1 \<rparr>)
     = Inr [[\<lparr> phase_of = Hold, calls = [Display_word ''la'' 1 None 0, Update_progress],
               duration = 4 \<rparr>]]
   \<and> get_bar_limit ((init_settings [''la'', ''do''])
       \<lparr> word_note_value := ''2'', fade_in_note := ''0'', fade_out_note := ''0'',
         loop_enabled := True, loop_mode := ''bars'', loop_bars := 1 \<rparr>) = Inr (Some 60)
   \<and> map (\<lambda>fs. (length fs, phase_count Hold fs))
       (export_pass ((init_settings [''la'', ''do''])
          \<lparr> word_note_value := ''2'', fade_in_note := ''0'', fade_out_note := ''0'',
            loop_enabled := True, loop_mode := ''bars'', loop_bars := 1 \<rparr>)
          \<lparr> word_dur = 4, fade_in = 0, fade_out = 0, gap = 0 \<rparr> (Some 60))
     = [(60, 60)]"
proof -
  let ?s = "(init_settings [''la'', ''do''])
       \<lparr> word_note_value := ''2'', fade_in_note := ''0'', fade_out_note := ''0'',
         loop_enabled := True, loop_mode := ''bars'', loop_bars := 1 \<rparr>"
  let ?t = "\<lparr> word_dur = 4, fade_in = 0, fade_out = 0, gap = 0 \<rparr>"
  have t: "get_timing ?s = Inr ?t"
    by (simp add: get_timing_def note_to_seconds_def dict_get_note_values init_settings_def)
  have bs: "get_bar_seconds ?s = Inr 2"
    by (simp add: get_bar_seconds_def init_settings_def)
  have w: "live_word ?t ''la'' None
      = [\<lparr> phase_of = Hold, calls = [Display_word ''la'' 1 None 0, Update_progress],
           duration = 4 \<rparr>]"
    by (simp add: live_word_def live_fade_in_def live_main_def live_fade_out_def live_gap_def)
  have loop: "live_loop ?t 4 True 2 [''la'', ''do''] 0 0 0 = Inr [live_word ?t ''la'' None]"
    by (simp add: live_loop.simps [of _ _ _ _ _ _ 0] live_loop.simps [of _ _ _ _ _ _ 1]
        py_index_def total_duration_live_word)
  have lp: "live_pass ?s = Inr [live_word ?t ''la'' None]"
    unfolding live_pass_def t bs by (simp add: init_settings_def loop)
  have bl: "get_bar_limit ?s = Inr (Some 60)"
    unfolding get_bar_limit_def bs by (simp add: init_settings_def py_int_def fl_eval)
  have fc: "get_frame_counts ?t 30
      = \<lparr> fade_in_f = 0, fade_out_f = 0, word_f = 120, gap_f = 0, main_f = 120 \<rparr>"
    by (simp add: get_frame_counts_def py_int_def fl_eval)
  have ew: "export_word ?t \<lparr> fade_in_f = 0, fade_out_f = 0, word_f = 120, gap_f = 0, main_f = 120 \<rparr>
              (Some 60) 0 ''la'' None
      = (take 60 (main_frames \<lparr> fade_in_f = 0, fade_out_f = 0, word_f = 120, gap_f = 0, main_f = 120 \<rparr> ''la''), 60)"
    by (simp add: export_word_def write_frames_take fade_in_frames_def fade_out_frames_def
        main_frames_def py_range_def)
  have ep: "export_pass ?s ?t (Some 60)
      = [take 60 (main_frames \<lparr> fade_in_f = 0, fade_out_f = 0, word_f = 120, gap_f = 0, main_f = 120 \<rparr> ''la'')]"
    unfolding export_pass_def
    by (simp add: init_settings_def fc py_slice_from_def budget_spent_def ew)
  have cnt: "phase_count Hold (take 60 (main_frames \<lparr> fade_in_f = 0, fade_out_f = 0, word_f = 120, gap_f = 0, main_f = 120 \<rparr> ''la'')) = 60"
    by (simp add: phase_count_def main_frames_def py_range_def take_map filter_map comp_def)
  have len: "length (take 60 (main_frames \<lparr> fade_in_f = 0, fade_out_f = 0, word_f = 120, gap_f = 0, main_f = 120 \<rparr> ''la'')) = 60"
    by (simp add: main_frames_def py_range_def)
  show ?thesis
    unfolding bs lp w bl ep using cnt len by simp
qed

text \<open>
  The example of C2 holds in both paths: with words of 1 second and a budget of one
  bar of 2 seconds, a pass plays two of five words and does not start the third.
\<close>

lemma bars_example_two_words:
  "map_sum id (map (map phase_of))
     (live_pass ((init_settings [''one'', ''two'', ''three'', ''four'', ''five''])
        \<lparr> word_note_value := ''1/2'', fade_in_note := ''0'', fade_out_note := ''0'',
          loop_enabled := True, loop_mode := ''bars'', loop_bars := 1 \<rparr>))
     = Inr [[Hold], [Hold]]
   \<and> map length
       (export_pass ((init_settings [''one'', ''two'', ''three'', ''four'', ''five''])
          \<lparr> word_note_value := ''1/2'', fade_in_note := ''0'', fade_out_note := ''0'',
            loop_enabled := True, loop_mode := ''bars'', loop_bars := 1 \<rparr>)
          \<lparr> word_dur = 1, fade_in = 0, fade_out = 0, gap = 0 \<rparr> (Some 60))
     = [30, 30]"
proof -
  let ?s = "(init_settings [''one'', ''two'', ''three'', ''four'', ''five''])
        \<lparr> word_note_value := ''1/2'', fade_in_note := ''0'', fade_out_note := ''0'',
          loop_enabled := True, loop_mode := ''bars'', loop_bars := 1 \<rparr>"
  let ?t = "\<lparr> word_dur = 1, fade_in = 0, fade_out = 0, gap = 0 \<rparr>"
  let ?fc = "\<lparr> fade_in_f = 0, fade_out_f = 0, word_f = 30, gap_f = 0, main_f = 30 \<rparr>"
  have t: "get_timing ?s = Inr ?t"
    by (simp add: get_timing_def note_to_seconds_def dict_get_note_values init_settings_def)
  have bs: "get_bar_seconds ?s = Inr 2"
    by (simp add: get_bar_seconds_def init_settings_def)
  have ph: "map phase_of (live_word ?t w p) = [Hold]" for w p
    by (simp add: live_word_def live_fade_in_def live_main_def live_fade_out_def live_gap_def)
  have loop: "live_loop ?t 4 True 2 [''one'', ''two'', ''three'', ''four'', ''five''] 0 0 0
      = Inr [live_word ?t ''one'' None, live_word ?t ''two'' (Some ''one'')]"
    by (simp add: live_loop.simps [of _ _ _ _ _ _ 0] live_loop.simps [of _ _ _ _ _ _ 1]
        live_loop.simps [of _ _ _ _ _ _ 2] py_index_def total_duration_live_word)
  have lp: "live_pass ?s = Inr [live_word ?t ''one'' None, live_word ?t ''two'' (Some ''one'')]"
    unfolding live_pass_def t bs by (simp add: init_settings_def loop)
  have fc: "get_frame_counts ?t 30 = ?fc"
    by (simp add: get_frame_counts_def py_int_def fl_eval)
  have ew: "export_word ?t ?fc (Some 60) n w p
      = (take (nat (60 - n)) (main_frames ?fc w), n + int (min 30 (nat (60 - n))))" for n w p
    by (simp add: export_word_def write_frames_take fade_in_frames_def fade_out_frames_def
        main_frames_def py_range_def)
  have ep: "map length (export_pass ?s ?t (Some 60)) = [30, 30]"
    unfolding export_pass_def
    by (simp add: init_settings_def fc py_slice_from_def budget_spent_def ew main_frames_def
        py_range_def)
  show ?thesis
    unfolding lp using ph ep by simp
qed

end
